theory Spec2Isabelle
  imports Main "HOL-Library.Word"
begin

unbundle bit_operations_syntax

section \<open>Data model of iot\_ble\_mqtt\_transport.c\<close>

text \<open>
  Buffers are lists of bytes; a pointer argument \<open>&buf[i]\<close> is passed as the buffer and
  the offset \<open>i\<close>. A read beyond the bytes the caller delivered is undefined behaviour in
  C; the embedding makes it the fault \<open>OutOfBounds\<close>. A failed \<open>configASSERT\<close> is the
  fault \<open>AssertFailed\<close>, a loop that never ends is the fault \<open>NoReturn\<close>. A function
  that reads the input, asserts or loops returns \<open>fault + result\<close>, with \<open>Inl\<close> the
  fault.
\<close>

type_synonym byte = "8 word"

datatype fault = OutOfBounds | AssertFailed | NoReturn

datatype MQTTStatus =
    MQTTSuccess
  | MQTTBadParameter
  | MQTTNoMemory
  | MQTTSendFailed
  | MQTTRecvFailed
  | MQTTBadResponse
  | MQTTServerRefused
  | MQTTNoDataAvailable
  | MQTTIllegalState
  | MQTTStateCollision
  | MQTTKeepAliveTimeout

datatype MQTTQoS = MQTTQoS0 | MQTTQoS1 | MQTTQoS2

definition bindF :: "fault + 'a \<Rightarrow> ('a \<Rightarrow> fault + 'b) \<Rightarrow> fault + 'b" where
  "bindF m f = (case m of Inl e \<Rightarrow> Inl e | Inr x \<Rightarrow> f x)"

text \<open>\<open>buf[i]\<close>, for a buffer of \<open>length buf\<close> delivered bytes.\<close>

definition rd :: "byte list \<Rightarrow> nat \<Rightarrow> fault + byte" where
  "rd buf i = (if i < length buf then Inr (buf ! i) else Inl OutOfBounds)"

text \<open>
  Modelled from the spec: \<open>configASSERT\<close> is a macro of FreeRTOSConfig.h, which is not
  among the sources. The spec calls a violated assertion a fatal, not recoverable
  error: the call stops there and nothing after the assertion is executed.
\<close>

definition configASSERT :: "bool \<Rightarrow> fault + unit" where
  "configASSERT c = (if c then Inr () else Inl AssertFailed)"

text \<open>
  \<open>size_t\<close> is 32 bits wide on the microcontrollers this library runs on. Sizes are
  natural numbers; where the C arithmetic can wrap, the wrap-around is written out.
\<close>

definition SIZE_MAX1 :: nat where
  "SIZE_MAX1 = 2 ^ 32"

definition SIZE_OF_SIMPLE_ACK :: nat where "SIZE_OF_SIMPLE_ACK = 4"
definition SIZE_OF_PING :: nat where "SIZE_OF_PING = 2"
definition SIZE_OF_SUB_ACK :: nat where "SIZE_OF_SUB_ACK = 5"

definition REMAINING_LENGTH_INVALID :: nat where
  "REMAINING_LENGTH_INVALID = 268435456"

text \<open>
  The packet type bytes of core\_mqtt\_serializer.h (MQTT 3.1.1), which is not among
  the sources.
\<close>

definition MQTT_PACKET_TYPE_CONNECT :: byte where "MQTT_PACKET_TYPE_CONNECT = 0x10"
definition MQTT_PACKET_TYPE_CONNACK :: byte where "MQTT_PACKET_TYPE_CONNACK = 0x20"
definition MQTT_PACKET_TYPE_PUBLISH :: byte where "MQTT_PACKET_TYPE_PUBLISH = 0x30"
definition MQTT_PACKET_TYPE_PUBACK :: byte where "MQTT_PACKET_TYPE_PUBACK = 0x40"
definition MQTT_PACKET_TYPE_PUBREC :: byte where "MQTT_PACKET_TYPE_PUBREC = 0x50"
definition MQTT_PACKET_TYPE_PUBREL :: byte where "MQTT_PACKET_TYPE_PUBREL = 0x62"
definition MQTT_PACKET_TYPE_PUBCOMP :: byte where "MQTT_PACKET_TYPE_PUBCOMP = 0x70"
definition MQTT_PACKET_TYPE_SUBACK :: byte where "MQTT_PACKET_TYPE_SUBACK = 0x90"
definition MQTT_PACKET_TYPE_UNSUBACK :: byte where "MQTT_PACKET_TYPE_UNSUBACK = 0xB0"
definition MQTT_PACKET_TYPE_PINGRESP :: byte where "MQTT_PACKET_TYPE_PINGRESP = 0xD0"

definition CLIENT_PACKET_TYPE_CONNECT :: byte where "CLIENT_PACKET_TYPE_CONNECT = 0x10"
definition CLIENT_PACKET_TYPE_PUBLISH :: byte where "CLIENT_PACKET_TYPE_PUBLISH = 0x30"
definition CLIENT_PACKET_TYPE_PUBACK :: byte where "CLIENT_PACKET_TYPE_PUBACK = 0x40"
definition CLIENT_PACKET_TYPE_PUBREC :: byte where "CLIENT_PACKET_TYPE_PUBREC = 0x50"
definition CLIENT_PACKET_TYPE_PUBREL :: byte where "CLIENT_PACKET_TYPE_PUBREL = 0x60"
definition CLIENT_PACKET_TYPE_PUBCOMP :: byte where "CLIENT_PACKET_TYPE_PUBCOMP = 0x70"
definition CLIENT_PACKET_TYPE_SUBSCRIBE :: byte where "CLIENT_PACKET_TYPE_SUBSCRIBE = 0x80"
definition CLIENT_PACKET_TYPE_UNSUBSCRIBE :: byte where "CLIENT_PACKET_TYPE_UNSUBSCRIBE = 0xA0"
definition CLIENT_PACKET_TYPE_PINGREQ :: byte where "CLIENT_PACKET_TYPE_PINGREQ = 0xC0"
definition CLIENT_PACKET_TYPE_DISCONNECT :: byte where "CLIENT_PACKET_TYPE_DISCONNECT = 0xE0"

section \<open>Field extractors\<close>

text \<open>\<open>getIntFromTwoBytes( &buf[i] )\<close>: the 16-bit big-endian integer at offset \<open>i\<close>.\<close>

definition getIntFromTwoBytes :: "byte list \<Rightarrow> nat \<Rightarrow> fault + 16 word" where
  "getIntFromTwoBytes buf i =
     bindF (rd buf i) (\<lambda>b0.
     bindF (rd buf (i + 1)) (\<lambda>b1.
       Inr (push_bit 8 (ucast b0) + ucast b1)))"

text \<open>The macro \<open>UINT16_DECODE( &buf[i] )\<close>.\<close>

definition UINT16_DECODE :: "byte list \<Rightarrow> nat \<Rightarrow> fault + 16 word" where
  "UINT16_DECODE buf i =
     bindF (rd buf i) (\<lambda>b0.
     bindF (rd buf (i + 1)) (\<lambda>b1.
       Inr (push_bit 8 (ucast b0) OR ucast b1)))"

definition convertIntToQos :: "byte \<Rightarrow> MQTTQoS" where
  "convertIntToQos incomingQos =
     (if incomingQos = 0 then MQTTQoS0
      else if incomingQos = 1 then MQTTQoS1
      else MQTTQoS1)"

section \<open>Remaining-length codec\<close>

text \<open>
  The do-while loop of \<open>getRemainingLength( &buf[off], &encodedLength )\<close>, entered with
  the loop variables \<open>remainingLength\<close>, \<open>multiplier\<close> and \<open>encodedLength\<close>. The result
  is the returned length with the encoded length stored through the pointer.
\<close>

function getRemainingLength_loop ::
  "byte list \<Rightarrow> nat \<Rightarrow> nat \<Rightarrow> nat \<Rightarrow> nat \<Rightarrow> fault + (nat \<times> nat)" where
  "getRemainingLength_loop buf off remainingLength multiplier encodedLength =
     (if multiplier > 2097152 then Inr (REMAINING_LENGTH_INVALID, encodedLength)
      else if off + encodedLength < length buf then
        (let encodedByte = buf ! (off + encodedLength);
             remainingLength' = remainingLength + unat (encodedByte AND 0x7F) * multiplier;
             multiplier' = multiplier * 128;
             encodedLength' = encodedLength + 1
         in if encodedByte AND 0x80 \<noteq> 0
            then getRemainingLength_loop buf off remainingLength' multiplier' encodedLength'
            else Inr (remainingLength', encodedLength'))
      else Inl OutOfBounds)"
  by pat_completeness auto
termination
  by (relation "measure (\<lambda>(buf, off, r, m, e). length buf - (off + e))") auto

definition getRemainingLength :: "byte list \<Rightarrow> nat \<Rightarrow> fault + (nat \<times> nat)" where
  "getRemainingLength buf off = getRemainingLength_loop buf off 0 1 0"

text \<open>
  \<open>encodeRemainingLength( pBuffer, length )\<close>: the bytes the do-while loop stores through
  \<open>pBuffer\<close>, in order; the returned \<open>encodeLength\<close> is their number.
\<close>

function encodeRemainingLength :: "nat \<Rightarrow> byte list" where
  "encodeRemainingLength len =
     (let encodeByte = (of_nat (len mod 128) :: byte);
          len' = len div 128
      in if len' > 0 then (encodeByte OR 0x80) # encodeRemainingLength len'
         else [encodeByte])"
  by pat_completeness auto
termination
  by (relation "measure (\<lambda>len. len)") auto

section \<open>Acknowledgement serializers\<close>

text \<open>
  \<open>MQTTFixedBuffer_t\<close>: the list is the memory behind \<open>pBuffer\<close>, its length is \<open>size\<close>.
  The serializers return the status and the buffer after the writes.
\<close>

definition transportSerializePingresp :: "byte list \<Rightarrow> fault + (MQTTStatus \<times> byte list)" where
  "transportSerializePingresp pBuffer =
     bindF (configASSERT (length pBuffer \<ge> SIZE_OF_PING)) (\<lambda>_.
       Inr (MQTTSuccess, pBuffer[0 := MQTT_PACKET_TYPE_PINGRESP, 1 := 0]))"

definition transportSerializeAck ::
  "byte list \<Rightarrow> byte \<Rightarrow> 16 word \<Rightarrow> fault + (MQTTStatus \<times> byte list)" where
  "transportSerializeAck pBuffer packetType packetId =
     bindF (configASSERT (length pBuffer \<ge> SIZE_OF_SIMPLE_ACK)) (\<lambda>_.
       if packetId = 0 \<and> packetType = MQTT_PACKET_TYPE_PUBACK
       then Inr (MQTTBadParameter, pBuffer)
       else Inr (MQTTSuccess,
                 pBuffer[0 := packetType, 1 := 2,
                         2 := ucast (drop_bit 8 packetId),
                         3 := ucast (packetId AND 0x00ff)]))"

definition transportSerializeSuback ::
  "byte list \<Rightarrow> byte \<Rightarrow> 16 word \<Rightarrow> fault + (MQTTStatus \<times> byte list)" where
  "transportSerializeSuback pBuffer packetType packetId =
     bindF (configASSERT (length pBuffer \<ge> SIZE_OF_SUB_ACK)) (\<lambda>_.
       if packetId = 0
       then Inr (MQTTBadParameter, pBuffer)
       else Inr (MQTTSuccess,
                 pBuffer[0 := packetType, 1 := 3,
                         2 := ucast (drop_bit 8 packetId),
                         3 := ucast (packetId AND 0x00ff),
                         4 := 1]))"

section \<open>Decoded records\<close>

text \<open>
  A pointer into memory is the list of bytes from the pointed-to position to the end of
  the block it points into; \<open>None\<close> is the null pointer. \<open>ptr buf i\<close> is \<open>&buf[i]\<close>;
  forming it reads nothing.
\<close>

definition ptr :: "byte list \<Rightarrow> nat \<Rightarrow> byte list option" where
  "ptr buf i = Some (drop i buf)"

text \<open>Reading \<open>n\<close> bytes through a pointer (\<open>memcpy\<close>, or a push into the stream buffer).\<close>

definition region :: "byte list option \<Rightarrow> nat \<Rightarrow> fault + byte list" where
  "region p n =
     (case p of
        None \<Rightarrow> if n = 0 then Inr [] else Inl OutOfBounds
      | Some bs \<Rightarrow> if n \<le> length bs then Inr (take n bs) else Inl OutOfBounds)"

text \<open>
  The structures of core\_mqtt\_serializer.h and iot\_ble\_mqtt\_transport.h (not among the
  sources), with the fields the transport reads or writes. The \<open>qos\<close> field of
  \<open>MQTTSubscribeInfo_t\<close> is \<open>subQos\<close> here, the \<open>type\<close> field of \<open>MQTTPacketInfo_t\<close> is
  \<open>ptype\<close>.
\<close>

record MQTTConnectInfo =
  cleanSession :: bool
  keepAliveSeconds :: "16 word"
  pClientIdentifier :: "byte list option"
  clientIdentifierLength :: "16 word"
  pUserName :: "byte list option"
  userNameLength :: "16 word"
  pPassword :: "byte list option"
  passwordLength :: "16 word"

definition MQTTConnectInfo_zero :: MQTTConnectInfo where
  "MQTTConnectInfo_zero =
     \<lparr> cleanSession = False, keepAliveSeconds = 0,
       pClientIdentifier = None, clientIdentifierLength = 0,
       pUserName = None, userNameLength = 0,
       pPassword = None, passwordLength = 0 \<rparr>"

record MQTTPublishInfo =
  qos :: MQTTQoS
  retain :: bool
  dup :: bool
  pTopicName :: "byte list option"
  topicNameLength :: "16 word"
  pPayload :: "byte list option"
  payloadLength :: nat

record MQTTBLEPublishInfo =
  info :: MQTTPublishInfo
  packetIdentifier :: "16 word"
  pending :: bool

text \<open>\<open>memset( pPublishInfo, 0x00, sizeof( MQTTBLEPublishInfo_t ) )\<close>.\<close>

definition MQTTBLEPublishInfo_zero :: MQTTBLEPublishInfo where
  "MQTTBLEPublishInfo_zero =
     \<lparr> info = \<lparr> qos = MQTTQoS0, retain = False, dup = False,
                pTopicName = None, topicNameLength = 0,
                pPayload = None, payloadLength = 0 \<rparr>,
       packetIdentifier = 0, pending = False \<rparr>"

record MQTTSubscribeInfo =
  subQos :: MQTTQoS
  pTopicFilter :: "byte list option"
  topicFilterLength :: "16 word"

record MQTTPacketInfo =
  ptype :: byte
  pRemainingData :: "byte list"
  remainingLength :: nat

section \<open>External collaborators\<close>

text \<open>
  The BLE serializer and deserializer (iot\_ble\_mqtt\_serialize.h), coreMQTT's
  \<open>MQTT_DeserializeAck\<close>, the allocator and the channel's send primitive are not among
  the sources; they are parameters of the model. A serializer returns its status and,
  on success, the frame it allocated (\<open>*pSize\<close> is the frame's length). A deserializer
  returns its status and what it decoded. \<open>IotBleDataTransfer_Send\<close> returns the number
  of bytes it sent; \<open>IotMqtt_MallocMessage\<close> tells whether the allocation succeeds.
\<close>

record externals =
  IotBleMqtt_SerializeConnect :: "MQTTConnectInfo \<Rightarrow> MQTTStatus \<times> byte list"
  IotBleMqtt_SerializePublish :: "MQTTPublishInfo \<Rightarrow> 16 word \<Rightarrow> MQTTStatus \<times> byte list"
  IotBleMqtt_SerializePuback :: "16 word \<Rightarrow> MQTTStatus \<times> byte list"
  IotBleMqtt_SerializeSubscribe ::
    "MQTTSubscribeInfo list \<Rightarrow> nat \<Rightarrow> 16 word \<Rightarrow> MQTTStatus \<times> byte list"
  IotBleMqtt_SerializeUnsubscribe ::
    "MQTTSubscribeInfo list \<Rightarrow> nat \<Rightarrow> 16 word \<Rightarrow> MQTTStatus \<times> byte list"
  IotBleMqtt_SerializePingreq :: "MQTTStatus \<times> byte list"
  IotBleMqtt_SerializeDisconnect :: "MQTTStatus \<times> byte list"
  MQTT_DeserializeAck :: "MQTTPacketInfo \<Rightarrow> MQTTStatus \<times> 16 word"
  IotMqtt_MallocMessage :: "nat \<Rightarrow> bool"
  IotBleDataTransfer_Send :: "byte list \<Rightarrow> nat"
  IotBleMqtt_GetPacketType :: "byte list \<Rightarrow> byte"
  IotBleMqtt_DeserializeConnack :: "MQTTPacketInfo \<Rightarrow> MQTTStatus"
  IotBleMqtt_DeserializePuback :: "MQTTPacketInfo \<Rightarrow> MQTTStatus \<times> 16 word"
  IotBleMqtt_DeserializePublish ::
    "MQTTPacketInfo \<Rightarrow> MQTTStatus \<times> MQTTPublishInfo \<times> 16 word"
  IotBleMqtt_DeserializeSuback :: "MQTTPacketInfo \<Rightarrow> MQTTStatus \<times> 16 word"
  IotBleMqtt_DeserializeUnsuback :: "MQTTPacketInfo \<Rightarrow> MQTTStatus \<times> 16 word"
  IotBleMqtt_DeserializePingresp :: "MQTTPacketInfo \<Rightarrow> MQTTStatus"

text \<open>
  The state the transport works on: the reassembly slot \<open>publishInfo\<close> and the stream
  buffer of the network context, the file's static array \<open>_subscriptions\<close> (of
  \<open>MQTT_MAX_SUBS_PER_PACKET\<close> entries, the length of the list), and the channel: the
  frames handed to its send primitive so far, and its receive buffer.
\<close>

record transport_state =
  publishInfo :: MQTTBLEPublishInfo
  subscriptions :: "MQTTSubscribeInfo list"
  xStreamBuffer :: "byte list"
  bufSize :: nat
  channel_sent :: "byte list list"
  channel_received :: "byte list"

text \<open>
  Modelled from the spec: the channel's \<open>receive(buf_or_null, length)\<close>
  (\<open>IotBleDataTransfer_Receive\<close>, not among the sources) with a null buffer consumes
  \<open>length\<close> bytes from the channel and discards them.
\<close>

definition IotBleDataTransfer_Receive_null :: "byte list \<Rightarrow> nat \<Rightarrow> byte list" where
  "IotBleDataTransfer_Receive_null received n = drop n received"

text \<open>
  Modelled from the spec: the channel's \<open>peekReceive()\<close>
  (\<open>IotBleDataTransfer_PeekReceiveBuffer\<close>, not among the sources) lends the bytes of the
  channel's receive buffer and reports their number, consuming nothing.
\<close>

definition IotBleDataTransfer_PeekReceiveBuffer :: "byte list \<Rightarrow> byte list \<times> nat" where
  "IotBleDataTransfer_PeekReceiveBuffer received = (received, length received)"

text \<open>
  Modelled from the spec: the byte queue's \<open>push(bytes)\<close> (FreeRTOS's
  \<open>xStreamBufferSend\<close>, not among the sources) copies the bytes in, best-effort within
  the capacity.
\<close>

definition xStreamBufferSend :: "transport_state \<Rightarrow> byte list \<Rightarrow> transport_state" where
  "xStreamBufferSend s bytes =
     s\<lparr>xStreamBuffer := xStreamBuffer s @ take (bufSize s - length (xStreamBuffer s)) bytes\<rparr>"

section \<open>CONNECT parser\<close>

text \<open>The loop \<open>while( buf[ bufferIndex ] != 77U ) bufferIndex++\<close>.\<close>

function parseConnect_scan :: "byte list \<Rightarrow> nat \<Rightarrow> fault + nat" where
  "parseConnect_scan buf bufferIndex =
     (if bufferIndex < length buf then
        (if buf ! bufferIndex \<noteq> 77 then parseConnect_scan buf (bufferIndex + 1)
         else Inr bufferIndex)
      else Inl OutOfBounds)"
  by pat_completeness auto
termination
  by (relation "measure (\<lambda>(buf, i). length buf - i)") auto

definition CLEAN_SESSION_MASK :: byte where "CLEAN_SESSION_MASK = 0x02"
definition WILL_FLAG_MASK :: byte where "WILL_FLAG_MASK = 0x04"
definition WILL_QOS_MASK :: byte where "WILL_QOS_MASK = 0x18"
definition WILL_RETAIN_MASK :: byte where "WILL_RETAIN_MASK = 0x20"
definition PASSWORD_MASK :: byte where "PASSWORD_MASK = 0x40"
definition USERNAME_MASK :: byte where "USERNAME_MASK = 0x80"

text \<open>
  The block \<open>if( ( status == MQTTSuccess ) && ( willFlag == true ) )\<close>: the will is
  decoded into a local \<open>willInfo\<close> that nothing reads afterwards; what remains is the
  status and the index.
\<close>

definition parseConnect_will ::
  "byte list \<Rightarrow> MQTTStatus \<Rightarrow> bool \<Rightarrow> nat \<Rightarrow> fault + (MQTTStatus \<times> nat)" where
  "parseConnect_will buf status willFlag bufferIndex =
     (if status = MQTTSuccess \<and> willFlag then
        bindF (getIntFromTwoBytes buf bufferIndex) (\<lambda>willTopicNameLength.
          if willTopicNameLength = 0 then Inr (MQTTBadParameter, bufferIndex)
          else
            (let bufferIndex1 = bufferIndex + 2 + unat willTopicNameLength
             in bindF (getIntFromTwoBytes buf bufferIndex1) (\<lambda>willPayloadLength.
                  Inr (status, bufferIndex1 + 2 + unat willPayloadLength))))
      else Inr (status, bufferIndex))"

text \<open>The block \<open>if( ( status == MQTTSuccess ) && ( usernameFlag == true ) )\<close>.\<close>

definition parseConnect_username ::
  "byte list \<Rightarrow> MQTTStatus \<Rightarrow> bool \<Rightarrow> nat \<Rightarrow> MQTTConnectInfo
   \<Rightarrow> fault + (MQTTStatus \<times> nat \<times> MQTTConnectInfo)" where
  "parseConnect_username buf status usernameFlag bufferIndex connectConfig =
     (if status = MQTTSuccess \<and> usernameFlag then
        bindF (getIntFromTwoBytes buf bufferIndex) (\<lambda>len.
          Inr (if len = 0 then MQTTBadParameter else status,
               bufferIndex + 2 + unat len,
               connectConfig\<lparr>userNameLength := len, pUserName := ptr buf (bufferIndex + 2)\<rparr>))
      else Inr (status, bufferIndex, connectConfig))"

text \<open>The block \<open>if( ( status == MQTTSuccess ) && ( passwordFlag == true ) )\<close>.\<close>

definition parseConnect_password ::
  "byte list \<Rightarrow> MQTTStatus \<Rightarrow> bool \<Rightarrow> nat \<Rightarrow> MQTTConnectInfo
   \<Rightarrow> fault + (MQTTStatus \<times> nat \<times> MQTTConnectInfo)" where
  "parseConnect_password buf status passwordFlag bufferIndex connectConfig =
     (if status = MQTTSuccess \<and> passwordFlag then
        bindF (getIntFromTwoBytes buf bufferIndex) (\<lambda>len.
          Inr (if len = 0 then MQTTBadParameter else status,
               bufferIndex + 2 + unat len,
               connectConfig\<lparr>passwordLength := len, pPassword := ptr buf (bufferIndex + 2)\<rparr>))
      else Inr (status, bufferIndex, connectConfig))"

text \<open>
  \<open>parseConnect( &connectConfig, buf )\<close>. Once the status is \<open>MQTTBadParameter\<close> every
  later block of the function is skipped (each is guarded by
  \<open>status == MQTTSuccess\<close>), so the status is returned with the configuration as it
  is.
\<close>

definition parseConnect ::
  "MQTTConnectInfo \<Rightarrow> byte list \<Rightarrow> fault + (MQTTStatus \<times> MQTTConnectInfo)" where
  "parseConnect connectConfig buf =
     bindF (rd buf 0) (\<lambda>b0.
     bindF (configASSERT (b0 AND 0xf0 = MQTT_PACKET_TYPE_CONNECT)) (\<lambda>_.
     bindF (parseConnect_scan buf 0) (\<lambda>m.
     bindF (rd buf (m + 4)) (\<lambda>level.
     bindF (rd buf (m + 5)) (\<lambda>connectionFlags.
       let status1 = (if level \<noteq> 4 then MQTTBadParameter else MQTTSuccess);
           status2 = (if connectionFlags AND 0x01 \<noteq> 0 then MQTTBadParameter else status1);
           bufferIndex = m + 5
       in if status2 \<noteq> MQTTSuccess then Inr (status2, connectConfig)
          else
            (let willFlag = (connectionFlags AND WILL_FLAG_MASK = WILL_FLAG_MASK);
                 passwordFlag = (connectionFlags AND PASSWORD_MASK = PASSWORD_MASK);
                 usernameFlag = (connectionFlags AND USERNAME_MASK = USERNAME_MASK);
                 cfg1 = connectConfig\<lparr>cleanSession :=
                          (connectionFlags AND CLEAN_SESSION_MASK = CLEAN_SESSION_MASK)\<rparr>
             in bindF (getIntFromTwoBytes buf (bufferIndex + 1)) (\<lambda>keepAlive.
                bindF (getIntFromTwoBytes buf (bufferIndex + 3)) (\<lambda>idLength.
                  let cfg2 = cfg1\<lparr>keepAliveSeconds := keepAlive,
                                   clientIdentifierLength := idLength,
                                   pClientIdentifier := ptr buf (bufferIndex + 3 + 2)\<rparr>;
                      status3 = (if idLength = 0 then MQTTBadParameter else status2);
                      bufferIndex3 = bufferIndex + 3 + 2 + unat idLength
                  in bindF (parseConnect_will buf status3 willFlag bufferIndex3)
                       (\<lambda>(status4, bufferIndex4).
                     bindF (parseConnect_username buf status4 usernameFlag bufferIndex4 cfg2)
                       (\<lambda>(status5, bufferIndex5, cfg3).
                     bindF (parseConnect_password buf status5 passwordFlag bufferIndex5 cfg3)
                       (\<lambda>(status6, bufferIndex6, cfg4).
                       Inr (status6, cfg4))))))))))))"

section \<open>PUBLISH parser\<close>

definition PUBLISH_FLAG_RETAIN_MASK :: byte where "PUBLISH_FLAG_RETAIN_MASK = push_bit 0 1"
definition PUBLISH_FLAG_QOS_MASK :: byte where
  "PUBLISH_FLAG_QOS_MASK = push_bit 1 1 OR push_bit 2 1"
definition PUBLISH_FLAG_DUP_MASK :: byte where "PUBLISH_FLAG_DUP_MASK = push_bit 2 1"
definition PUBLISH_FLAG_QOS1_MASK :: byte where "PUBLISH_FLAG_QOS1_MASK = push_bit 1 1"
definition PUBLISH_FLAG_QOS2_MASK :: byte where "PUBLISH_FLAG_QOS2_MASK = push_bit 2 1"

text \<open>
  \<open>parsePublish( buf, length, pPublishInfo )\<close>: the returned flag (true when the payload
  is still to come) and the record after the writes. The payload length is computed in
  \<open>size_t\<close>, where the subtraction wraps.
\<close>

definition parsePublish ::
  "externals \<Rightarrow> byte list \<Rightarrow> nat \<Rightarrow> MQTTBLEPublishInfo
   \<Rightarrow> fault + (bool \<times> MQTTBLEPublishInfo)" where
  "parsePublish ext buf len pPublishInfo =
     bindF (rd buf 0) (\<lambda>b0.
     bindF (configASSERT (b0 AND 0xF0 = CLIENT_PACKET_TYPE_PUBLISH)) (\<lambda>_.
       let publishFlags = b0 AND 0x0F;
           info1 = (info pPublishInfo)
             \<lparr> dup := (publishFlags AND PUBLISH_FLAG_DUP_MASK = PUBLISH_FLAG_DUP_MASK),
               retain := (publishFlags AND PUBLISH_FLAG_RETAIN_MASK = PUBLISH_FLAG_RETAIN_MASK),
               qos := convertIntToQos (drop_bit 1 (publishFlags AND PUBLISH_FLAG_QOS_MASK)) \<rparr>;
           index1 = 1
       in bindF (getRemainingLength buf index1) (\<lambda>(remLength, encodedLength).
          bindF (configASSERT (remLength \<noteq> REMAINING_LENGTH_INVALID)) (\<lambda>_.
            let index2 = index1 + encodedLength
            in bindF (UINT16_DECODE buf index2) (\<lambda>topicLength.
               let info2 = info1\<lparr>topicNameLength := topicLength\<rparr>;
                   index3 = index2 + 2
               in bindF (if IotMqtt_MallocMessage ext (unat topicLength)
                         then bindF (region (ptr buf index3) (unat topicLength)) (\<lambda>topicBuffer.
                                Inr (info2\<lparr>pTopicName := Some topicBuffer\<rparr>))
                         else Inr info2) (\<lambda>info3.
                  let index4 = index3 + unat topicLength
                  in bindF (if qos info3 \<noteq> MQTTQoS0
                            then bindF (UINT16_DECODE buf index4) (\<lambda>pid.
                                   Inr (pid, index4 + 2))
                            else Inr (packetIdentifier pPublishInfo, index4)) (\<lambda>(pid, index5).
                       let info4 = info3\<lparr>payloadLength :=
                                     (remLength + 1 + encodedLength + SIZE_MAX1 - index5)
                                       mod SIZE_MAX1\<rparr>
                       in if index5 < len
                          then Inr (False,
                                    pPublishInfo\<lparr>info := info4\<lparr>pPayload := ptr buf index5\<rparr>,
                                                 packetIdentifier := pid\<rparr>)
                          else Inr (payloadLength info4 > 0,
                                    pPublishInfo\<lparr>info := info4,
                                                 packetIdentifier := pid\<rparr>))))))))"

section \<open>SUBSCRIBE and UNSUBSCRIBE parser\<close>

text \<open>
  The loop of \<open>calculateNumSubs( &buf[off], remainingLength, subscribe )\<close>, entered with
  the loop variables \<open>numSubs\<close> and \<open>totalSize\<close>, both \<open>uint16_t\<close>. The condition
  \<open>( remainingLength - totalSize ) > 0\<close> is evaluated in \<open>int\<close>. The loop need not end
  (a filter length of 0xFFFE leaves \<open>totalSize\<close> where it was): not returning is
  \<open>None\<close>.
\<close>

partial_function (option) calculateNumSubs_loop ::
  "byte list \<Rightarrow> nat \<Rightarrow> byte \<Rightarrow> bool \<Rightarrow> 16 word \<Rightarrow> 16 word \<Rightarrow> (fault + 16 word) option" where
  "calculateNumSubs_loop buf off remLength subscribe numSubs totalSize =
     (if int (unat remLength) - int (unat totalSize) > 0 then
        (case getIntFromTwoBytes buf (off + unat totalSize) of
           Inl f \<Rightarrow> Some (Inl f)
         | Inr v \<Rightarrow>
             calculateNumSubs_loop buf off remLength subscribe (numSubs + 1)
               (if subscribe then totalSize + (v + 2) + 1 else totalSize + (v + 2)))
      else Some (Inr numSubs))"

definition calculateNumSubs :: "byte list \<Rightarrow> nat \<Rightarrow> byte \<Rightarrow> bool \<Rightarrow> fault + 16 word" where
  "calculateNumSubs buf off remLength subscribe =
     (case calculateNumSubs_loop buf off remLength subscribe 0 0 of
        None \<Rightarrow> Inl NoReturn
      | Some r \<Rightarrow> r)"

text \<open>
  The \<open>for\<close> loop of \<open>parseSubscribe\<close> that fills \<open>_subscriptions\<close>; \<open>bufferIndex\<close> is a
  \<open>uint16_t\<close>. A write past the end of the array is out of bounds.
\<close>

function parseSubscribe_fill ::
  "byte list \<Rightarrow> bool \<Rightarrow> nat \<Rightarrow> nat \<Rightarrow> 16 word \<Rightarrow> MQTTSubscribeInfo list
   \<Rightarrow> fault + MQTTSubscribeInfo list" where
  "parseSubscribe_fill buf subscribe subscriptionCount subscriptionIndex bufferIndex subs =
     (if subscriptionIndex < subscriptionCount then
        (if subscriptionIndex < length subs then
           bindF (getIntFromTwoBytes buf (unat bufferIndex)) (\<lambda>len.
             let entry1 = (subs ! subscriptionIndex)
                            \<lparr>topicFilterLength := len,
                             pTopicFilter := ptr buf (unat bufferIndex + 2)\<rparr>;
                 bufferIndex1 = bufferIndex + (len + 2)
             in if subscribe then
                  bindF (rd buf (unat bufferIndex1)) (\<lambda>q.
                    parseSubscribe_fill buf subscribe subscriptionCount (subscriptionIndex + 1)
                      (bufferIndex1 + 1)
                      (subs[subscriptionIndex := entry1\<lparr>subQos := convertIntToQos (q AND 0x03)\<rparr>]))
                else
                  parseSubscribe_fill buf subscribe subscriptionCount (subscriptionIndex + 1)
                    bufferIndex1 (subs[subscriptionIndex := entry1]))
         else Inl OutOfBounds)
      else Inr subs)"
  by pat_completeness auto
termination
  by (relation "measure (\<lambda>(buf, sub, n, i, b, subs). n - i)") auto

text \<open>
  \<open>parseSubscribe( &subscriptionCount, buf, &packetIdentifier, subscribe )\<close>: the status,
  the subscription count, the packet identifier and \<open>_subscriptions\<close> after the writes.
\<close>

definition parseSubscribe ::
  "MQTTSubscribeInfo list \<Rightarrow> byte list \<Rightarrow> bool
   \<Rightarrow> fault + (MQTTStatus \<times> nat \<times> 16 word \<times> MQTTSubscribeInfo list)" where
  "parseSubscribe subs buf subscribe =
     bindF (getIntFromTwoBytes buf 2) (\<lambda>pIdentifier.
     bindF (rd buf 1) (\<lambda>b1.
       let remLength = b1 - 2
       in bindF (calculateNumSubs buf 4 remLength subscribe) (\<lambda>numSubs.
            let subscriptionCount = unat numSubs
            in if subscriptionCount = 0
               then Inr (MQTTBadParameter, subscriptionCount, pIdentifier, subs)
               else bindF (parseSubscribe_fill buf subscribe subscriptionCount 0 4 subs)
                      (\<lambda>subs'. Inr (MQTTSuccess, subscriptionCount, pIdentifier, subs')))))"

section \<open>Outbound handlers\<close>

text \<open>
  Each handler returns its status and the frame behind \<open>bufToSend->pBuffer\<close>, whose
  length is \<open>*pSize\<close>; the frame is empty where the handler leaves the pointer null and
  the size 0.
\<close>

definition handleOutgoingConnect ::
  "externals \<Rightarrow> byte list \<Rightarrow> fault + (MQTTStatus \<times> byte list)" where
  "handleOutgoingConnect ext buf =
     bindF (parseConnect MQTTConnectInfo_zero buf) (\<lambda>(status, connectConfig).
       if status = MQTTSuccess then Inr (IotBleMqtt_SerializeConnect ext connectConfig)
       else Inr (status, []))"

text \<open>
  The first \<open>if\<close> of \<open>handleOutgoingPublish\<close>: the pending publish takes the whole buffer
  as its payload, otherwise the buffer is parsed as a PUBLISH packet.
\<close>

definition handleOutgoingPublish_info ::
  "externals \<Rightarrow> MQTTBLEPublishInfo \<Rightarrow> byte list \<Rightarrow> nat \<Rightarrow> fault + MQTTBLEPublishInfo" where
  "handleOutgoingPublish_info ext pPublishInfo buf bytesToSend =
     (if pending pPublishInfo then
        bindF (configASSERT (payloadLength (info pPublishInfo) = bytesToSend)) (\<lambda>_.
          Inr (pPublishInfo\<lparr>info := (info pPublishInfo)\<lparr>pPayload := ptr buf 0\<rparr>,
                            pending := False\<rparr>))
      else
        bindF (parsePublish ext buf bytesToSend pPublishInfo) (\<lambda>(ret, pPublishInfo1).
          Inr (pPublishInfo1\<lparr>pending := ret\<rparr>)))"

text \<open>
  \<open>handleOutgoingPublish\<close>: the status, the frame and the reassembly slot after the call.
\<close>

definition handleOutgoingPublish ::
  "externals \<Rightarrow> MQTTBLEPublishInfo \<Rightarrow> byte list \<Rightarrow> nat
   \<Rightarrow> fault + (MQTTStatus \<times> byte list \<times> MQTTBLEPublishInfo)" where
  "handleOutgoingPublish ext pPublishInfo buf bytesToSend =
     bindF (handleOutgoingPublish_info ext pPublishInfo buf bytesToSend) (\<lambda>pPublishInfo1.
       if \<not> pending pPublishInfo1 then
         (let (status, frame) =
                IotBleMqtt_SerializePublish ext (info pPublishInfo1)
                  (packetIdentifier pPublishInfo1)
          in Inr (status, if status = MQTTSuccess then frame else [],
                  MQTTBLEPublishInfo_zero))
       else Inr (MQTTSuccess, [], pPublishInfo1))"

definition handleOutgoingPuback ::
  "externals \<Rightarrow> byte list \<Rightarrow> fault + (MQTTStatus \<times> byte list)" where
  "handleOutgoingPuback ext buf =
     (let pubackPacket = \<lparr> ptype = MQTT_PACKET_TYPE_PUBACK,
                            pRemainingData = buf, remainingLength = 2 \<rparr>;
          (status, packetIdentifier) = MQTT_DeserializeAck ext pubackPacket
      in if status = MQTTSuccess then Inr (IotBleMqtt_SerializePuback ext packetIdentifier)
         else Inr (status, []))"

definition handleOutgoingSubscribe ::
  "externals \<Rightarrow> MQTTSubscribeInfo list \<Rightarrow> byte list
   \<Rightarrow> fault + (MQTTStatus \<times> byte list \<times> MQTTSubscribeInfo list)" where
  "handleOutgoingSubscribe ext subs buf =
     bindF (parseSubscribe subs buf True)
       (\<lambda>(status, subscriptionCount, packetIdentifier, subs1).
          if status = MQTTSuccess then
            (let (status1, frame) =
                   IotBleMqtt_SerializeSubscribe ext subs1 subscriptionCount packetIdentifier
             in Inr (status1, frame, subs1))
          else Inr (status, [], subs1))"

definition handleOutgoingUnsubscribe ::
  "externals \<Rightarrow> MQTTSubscribeInfo list \<Rightarrow> byte list
   \<Rightarrow> fault + (MQTTStatus \<times> byte list \<times> MQTTSubscribeInfo list)" where
  "handleOutgoingUnsubscribe ext subs buf =
     bindF (parseSubscribe subs buf False)
       (\<lambda>(status, subscriptionCount, packetIdentifier, subs1).
          if status = MQTTSuccess then
            (let (status1, frame) =
                   IotBleMqtt_SerializeUnsubscribe ext subs1 subscriptionCount packetIdentifier
             in Inr (status1, frame, subs1))
          else Inr (status, [], subs1))"

definition handleOutgoingPingReq :: "externals \<Rightarrow> MQTTStatus \<times> byte list" where
  "handleOutgoingPingReq ext = IotBleMqtt_SerializePingreq ext"

definition handleOutgoingDisconnect :: "externals \<Rightarrow> MQTTStatus \<times> byte list" where
  "handleOutgoingDisconnect ext = IotBleMqtt_SerializeDisconnect ext"

section \<open>Outbound dispatcher\<close>

text \<open>The cast \<open>( int32_t ) bytesToWrite\<close>.\<close>

definition int32_cast :: "nat \<Rightarrow> int" where
  "int32_cast n = sint (word_of_nat n :: 32 word)"

text \<open>
  The \<open>if\<close> and the \<open>switch\<close> of \<open>IotBleMqttTransportSend\<close>: the status, the serialized
  frame (of length \<open>packetSize\<close>) and the state after the handler.
\<close>

definition IotBleMqttTransportSend_dispatch ::
  "externals \<Rightarrow> transport_state \<Rightarrow> byte list \<Rightarrow> byte
   \<Rightarrow> fault + (MQTTStatus \<times> byte list \<times> transport_state)" where
  "IotBleMqttTransportSend_dispatch ext s buf packetType =
     (if pending (publishInfo s) then
        bindF (handleOutgoingPublish ext (publishInfo s) buf (length buf)) (\<lambda>(status, frame, p).
          Inr (status, frame, s\<lparr>publishInfo := p\<rparr>))
      else if packetType = CLIENT_PACKET_TYPE_CONNECT then
        bindF (handleOutgoingConnect ext buf) (\<lambda>(status, frame). Inr (status, frame, s))
      else if packetType = CLIENT_PACKET_TYPE_PUBLISH then
        bindF (handleOutgoingPublish ext (publishInfo s) buf (length buf)) (\<lambda>(status, frame, p).
          Inr (status, frame, s\<lparr>publishInfo := p\<rparr>))
      else if packetType = CLIENT_PACKET_TYPE_PUBACK then
        bindF (handleOutgoingPuback ext buf) (\<lambda>(status, frame). Inr (status, frame, s))
      else if packetType = CLIENT_PACKET_TYPE_SUBSCRIBE then
        bindF (handleOutgoingSubscribe ext (subscriptions s) buf) (\<lambda>(status, frame, subs).
          Inr (status, frame, s\<lparr>subscriptions := subs\<rparr>))
      else if packetType = CLIENT_PACKET_TYPE_UNSUBSCRIBE then
        bindF (handleOutgoingUnsubscribe ext (subscriptions s) buf) (\<lambda>(status, frame, subs).
          Inr (status, frame, s\<lparr>subscriptions := subs\<rparr>))
      else if packetType = CLIENT_PACKET_TYPE_PINGREQ then
        (let (status, frame) = handleOutgoingPingReq ext in Inr (status, frame, s))
      else if packetType = CLIENT_PACKET_TYPE_DISCONNECT then
        (let (status, frame) = handleOutgoingDisconnect ext in Inr (status, frame, s))
      else if packetType = CLIENT_PACKET_TYPE_PUBREC \<or> packetType = CLIENT_PACKET_TYPE_PUBREL
              \<or> packetType = CLIENT_PACKET_TYPE_PUBCOMP then
        Inr (MQTTSendFailed, [], s)
      else Inr (MQTTBadParameter, [], s))"

text \<open>
  \<open>IotBleMqttTransportSend( pContext, buf, bytesToWrite )\<close>, for a buffer of
  \<open>bytesToWrite = length buf\<close> bytes: the returned byte count and the state after the
  call. A frame handed to \<open>IotBleDataTransfer_Send\<close> is appended to \<open>channel_sent\<close>.
\<close>

definition IotBleMqttTransportSend ::
  "externals \<Rightarrow> transport_state \<Rightarrow> byte list \<Rightarrow> fault + (int \<times> transport_state)" where
  "IotBleMqttTransportSend ext s buf =
     bindF (rd buf 0) (\<lambda>b0.
       let packetType = b0 AND 0xF0;
           MQTTBytesWritten = int32_cast (length buf)
       in bindF (IotBleMqttTransportSend_dispatch ext s buf packetType)
            (\<lambda>(status, serializedBuf, s1).
               if status = MQTTSuccess then
                 (if length serializedBuf > 0 then
                    (let bytesSend = IotBleDataTransfer_Send ext serializedBuf;
                         s2 = s1\<lparr>channel_sent := channel_sent s1 @ [serializedBuf]\<rparr>
                     in Inr (if bytesSend \<noteq> length serializedBuf then 0 else MQTTBytesWritten,
                             s2))
                  else Inr (MQTTBytesWritten, s1))
               else Inr (0, s1)))"

section \<open>Inbound handlers and dispatcher\<close>

text \<open>
  \<open>transportSerializePublish\<close>: the local \<open>header\<close> has 5 bytes, of which
  \<open>encodeRemainingLength\<close> may fill 4. The remaining length is computed in \<open>size_t\<close>.
\<close>

definition transportSerializePublish ::
  "transport_state \<Rightarrow> MQTTPublishInfo \<Rightarrow> 16 word \<Rightarrow> fault + (MQTTStatus \<times> transport_state)" where
  "transportSerializePublish s pPublishConfig packetId =
     (if qos pPublishConfig = MQTTQoS2 then Inr (MQTTBadParameter, s)
      else if qos pPublishConfig = MQTTQoS1 \<and> packetId = 0 then Inr (MQTTBadParameter, s)
      else
        (let f1 = (if dup pPublishConfig
                   then MQTT_PACKET_TYPE_PUBLISH OR PUBLISH_FLAG_DUP_MASK
                   else MQTT_PACKET_TYPE_PUBLISH);
             f2 = (if retain pPublishConfig then f1 OR PUBLISH_FLAG_RETAIN_MASK else f1);
             f3 = (if qos pPublishConfig = MQTTQoS1 then f2 OR PUBLISH_FLAG_QOS1_MASK else f2);
             publishFlags = (if qos pPublishConfig = MQTTQoS2
                             then f3 OR PUBLISH_FLAG_QOS2_MASK else f3);
             remLength0 = (2 + unat (topicNameLength pPublishConfig)
                             + payloadLength pPublishConfig) mod SIZE_MAX1;
             remLength = (if qos pPublishConfig \<noteq> MQTTQoS0
                          then (remLength0 + 2) mod SIZE_MAX1 else remLength0);
             encoded = encodeRemainingLength remLength
         in if length encoded > 4 then Inl OutOfBounds
            else
              (let s1 = xStreamBufferSend s (publishFlags # encoded);
                   s2 = xStreamBufferSend s1
                          [ucast (drop_bit 8 (topicNameLength pPublishConfig AND 0xFF00)),
                           ucast (topicNameLength pPublishConfig AND 0x00FF)]
               in bindF (region (pTopicName pPublishConfig)
                           (unat (topicNameLength pPublishConfig))) (\<lambda>topic.
                    let s3 = xStreamBufferSend s2 topic;
                        s4 = (if qos pPublishConfig \<noteq> MQTTQoS0
                              then xStreamBufferSend s3
                                     [ucast (drop_bit 8 (packetId AND 0xFF00)),
                                      ucast (packetId AND 0x00FF)]
                              else s3)
                    in bindF (region (pPayload pPublishConfig)
                                (payloadLength pPublishConfig)) (\<lambda>payload.
                         Inr (MQTTSuccess, xStreamBufferSend s4 payload))))))"

definition handleIncomingConnack ::
  "externals \<Rightarrow> transport_state \<Rightarrow> MQTTPacketInfo \<Rightarrow> byte list
   \<Rightarrow> fault + (MQTTStatus \<times> transport_state)" where
  "handleIncomingConnack ext s packet pBuffer =
     (let status = IotBleMqtt_DeserializeConnack ext packet
      in if status = MQTTSuccess then
           bindF (transportSerializeAck pBuffer (ptype packet) 0) (\<lambda>(status1, pBuffer1).
             if status1 = MQTTSuccess
             then Inr (status1, xStreamBufferSend s (take SIZE_OF_SIMPLE_ACK pBuffer1))
             else Inr (status1, s))
         else Inr (status, s))"

definition handleIncomingPuback ::
  "externals \<Rightarrow> transport_state \<Rightarrow> MQTTPacketInfo \<Rightarrow> byte list
   \<Rightarrow> fault + (MQTTStatus \<times> transport_state)" where
  "handleIncomingPuback ext s packet pBuffer =
     (let (status, packetIdentifier) = IotBleMqtt_DeserializePuback ext packet
      in if status = MQTTSuccess then
           bindF (transportSerializeAck pBuffer (ptype packet) packetIdentifier)
             (\<lambda>(status1, pBuffer1).
                if status1 = MQTTSuccess
                then Inr (status1, xStreamBufferSend s (take SIZE_OF_SIMPLE_ACK pBuffer1))
                else Inr (status1, s))
         else Inr (status, s))"

definition handleIncomingPublish ::
  "externals \<Rightarrow> transport_state \<Rightarrow> MQTTPacketInfo \<Rightarrow> byte list
   \<Rightarrow> fault + (MQTTStatus \<times> transport_state)" where
  "handleIncomingPublish ext s packet pBuffer =
     (let (status, publishInfo, packetIdentifier) = IotBleMqtt_DeserializePublish ext packet
      in if status = MQTTSuccess
         then transportSerializePublish s publishInfo packetIdentifier
         else Inr (status, s))"

definition handleIncomingSuback ::
  "externals \<Rightarrow> transport_state \<Rightarrow> MQTTPacketInfo \<Rightarrow> byte list
   \<Rightarrow> fault + (MQTTStatus \<times> transport_state)" where
  "handleIncomingSuback ext s packet pBuffer =
     (let (status, packetIdentifier) = IotBleMqtt_DeserializeSuback ext packet
      in if status = MQTTSuccess then
           bindF (transportSerializeSuback pBuffer (ptype packet) packetIdentifier)
             (\<lambda>(status1, pBuffer1).
                if status1 = MQTTSuccess
                then Inr (status1, xStreamBufferSend s (take SIZE_OF_SUB_ACK pBuffer1))
                else Inr (status1, s))
         else Inr (status, s))"

definition handleIncomingUnsuback ::
  "externals \<Rightarrow> transport_state \<Rightarrow> MQTTPacketInfo \<Rightarrow> byte list
   \<Rightarrow> fault + (MQTTStatus \<times> transport_state)" where
  "handleIncomingUnsuback ext s packet pBuffer =
     (let (status, packetIdentifier) = IotBleMqtt_DeserializeUnsuback ext packet
      in if status = MQTTSuccess then
           bindF (transportSerializeAck pBuffer (ptype packet) packetIdentifier)
             (\<lambda>(status1, pBuffer1).
                if status1 = MQTTSuccess
                then Inr (status1, xStreamBufferSend s (take SIZE_OF_SIMPLE_ACK pBuffer1))
                else Inr (status1, s))
         else Inr (status, s))"

definition handleIncomingPingresp ::
  "externals \<Rightarrow> transport_state \<Rightarrow> MQTTPacketInfo \<Rightarrow> byte list
   \<Rightarrow> fault + (MQTTStatus \<times> transport_state)" where
  "handleIncomingPingresp ext s packet pBuffer =
     (let status = IotBleMqtt_DeserializePingresp ext packet
      in if status = MQTTSuccess then
           bindF (transportSerializePingresp pBuffer) (\<lambda>(status1, pBuffer1).
             if status1 = MQTTSuccess
             then Inr (status1, xStreamBufferSend s (take SIZE_OF_PING pBuffer1))
             else Inr (status1, s))
         else Inr (status, s))"

text \<open>
  The \<open>switch\<close> of \<open>IotBleMqttTransportAcceptData\<close>. \<open>sharedBuffer\<close> is a local array of
  \<open>SIZE_OF_SUB_ACK\<close> bytes; every byte pushed from it is written first.
\<close>

definition IotBleMqttTransportAcceptData_dispatch ::
  "externals \<Rightarrow> transport_state \<Rightarrow> MQTTPacketInfo \<Rightarrow> fault + (MQTTStatus \<times> transport_state)" where
  "IotBleMqttTransportAcceptData_dispatch ext s packet =
     (let sharedBuffer = replicate SIZE_OF_SUB_ACK (0 :: byte)
      in if ptype packet = MQTT_PACKET_TYPE_CONNACK then
           handleIncomingConnack ext s packet sharedBuffer
         else if ptype packet = MQTT_PACKET_TYPE_PUBLISH then
           handleIncomingPublish ext s packet sharedBuffer
         else if ptype packet = MQTT_PACKET_TYPE_PUBACK then
           handleIncomingPuback ext s packet sharedBuffer
         else if ptype packet = MQTT_PACKET_TYPE_SUBACK then
           handleIncomingSuback ext s packet sharedBuffer
         else if ptype packet = MQTT_PACKET_TYPE_UNSUBACK then
           handleIncomingUnsuback ext s packet sharedBuffer
         else if ptype packet = MQTT_PACKET_TYPE_PINGRESP then
           handleIncomingPingresp ext s packet sharedBuffer
         else if ptype packet = MQTT_PACKET_TYPE_PUBREC \<or> ptype packet = MQTT_PACKET_TYPE_PUBREL
                 \<or> ptype packet = MQTT_PACKET_TYPE_PUBCOMP then
           Inr (MQTTRecvFailed, s)
         else Inr (MQTTBadParameter, s))"

text \<open>
  \<open>IotBleMqttTransportAcceptData( pContext )\<close>: the status and the state after the call.
\<close>

definition IotBleMqttTransportAcceptData ::
  "externals \<Rightarrow> transport_state \<Rightarrow> fault + (MQTTStatus \<times> transport_state)" where
  "IotBleMqttTransportAcceptData ext s =
     (let (data, len) = IotBleDataTransfer_PeekReceiveBuffer (channel_received s);
          packet = \<lparr> ptype = IotBleMqtt_GetPacketType ext (channel_received s),
                      pRemainingData = data, remainingLength = len \<rparr>
      in bindF (IotBleMqttTransportAcceptData_dispatch ext s packet) (\<lambda>(status, s1).
           if status \<noteq> MQTTSuccess then Inr (status, s1)
           else Inr (status,
                     s1\<lparr>channel_received :=
                          IotBleDataTransfer_Receive_null (channel_received s1)
                            (remainingLength packet)\<rparr>)))"

section \<open>Packets as MQTT 3.1.1 lays them out\<close>

text \<open>
  The packets the claims speak of, built from their fields as the MQTT specification
  orders them (not read off the parsers). A CONNECT packet: the fixed header byte, the
  encoded remaining length, the protocol name "MQTT" behind its length, the protocol
  level, the connect flags, the keep-alive, the length of the client identifier, and
  the rest of the payload.
\<close>

definition connect_packet ::
  "byte \<Rightarrow> nat \<Rightarrow> byte \<Rightarrow> byte \<Rightarrow> 16 word \<Rightarrow> 16 word \<Rightarrow> byte list \<Rightarrow> byte list" where
  "connect_packet b0 remLength level connectFlags keepAlive idLength rest =
     b0 # encodeRemainingLength remLength
       @ [0x00, 0x04, 0x4D, 0x51, 0x54, 0x54, level, connectFlags,
          ucast (drop_bit 8 keepAlive), ucast keepAlive,
          ucast (drop_bit 8 idLength), ucast idLength]
       @ rest"

section \<open>A stand-in for the external collaborators\<close>

text \<open>
  To run the model on concrete inputs: serializers that succeed with a frame of one tag
  byte (the publish serializer appends the payload it is given), deserializers that
  succeed with packet identifier 1, an allocator that succeeds, a send primitive that
  sends every byte, and a channel whose next packet type is its first received byte.
\<close>

definition bytes_of :: "byte list option \<Rightarrow> nat \<Rightarrow> byte list" where
  "bytes_of p n = (case p of None \<Rightarrow> [] | Some bs \<Rightarrow> take n bs)"

definition stub_externals :: externals where
  "stub_externals =
     \<lparr> IotBleMqtt_SerializeConnect = (\<lambda>c. (MQTTSuccess, [0x01])),
       IotBleMqtt_SerializePublish =
         (\<lambda>i pid. (MQTTSuccess, 0x03 # bytes_of (pPayload i) (payloadLength i))),
       IotBleMqtt_SerializePuback = (\<lambda>pid. (MQTTSuccess, [0x04])),
       IotBleMqtt_SerializeSubscribe = (\<lambda>subs n pid. (MQTTSuccess, [0x08])),
       IotBleMqtt_SerializeUnsubscribe = (\<lambda>subs n pid. (MQTTSuccess, [0x0A])),
       IotBleMqtt_SerializePingreq = (MQTTSuccess, [0x0C]),
       IotBleMqtt_SerializeDisconnect = (MQTTSuccess, [0x0E]),
       MQTT_DeserializeAck = (\<lambda>p. (MQTTSuccess, 1)),
       IotMqtt_MallocMessage = (\<lambda>n. True),
       IotBleDataTransfer_Send = (\<lambda>frame. length frame),
       IotBleMqtt_GetPacketType = (\<lambda>received. case received of [] \<Rightarrow> 0 | b # _ \<Rightarrow> b),
       IotBleMqtt_DeserializeConnack = (\<lambda>p. MQTTSuccess),
       IotBleMqtt_DeserializePuback = (\<lambda>p. (MQTTSuccess, 1)),
       IotBleMqtt_DeserializePublish =
         (\<lambda>p. (MQTTSuccess,
                \<lparr> qos = MQTTQoS0, retain = False, dup = False,
                  pTopicName = Some [0x61], topicNameLength = 1,
                  pPayload = Some (pRemainingData p), payloadLength = remainingLength p \<rparr>,
                0)),
       IotBleMqtt_DeserializeSuback = (\<lambda>p. (MQTTSuccess, 1)),
       IotBleMqtt_DeserializeUnsuback = (\<lambda>p. (MQTTSuccess, 1)),
       IotBleMqtt_DeserializePingresp = (\<lambda>p. MQTTSuccess) \<rparr>"

text \<open>The state of a fresh connection, with room for 8 subscriptions and 64 queued bytes.\<close>

definition idle_state :: transport_state where
  "idle_state =
     \<lparr> publishInfo = MQTTBLEPublishInfo_zero,
       subscriptions = replicate 8 \<lparr> subQos = MQTTQoS0, pTopicFilter = None,
                                      topicFilterLength = 0 \<rparr>,
       xStreamBuffer = [], bufSize = 64, channel_sent = [], channel_received = [] \<rparr>"

text \<open>
  What an inbound handler may do to the state: unless it succeeds it leaves the state as
  it is, and it never touches the channel.
\<close>

definition inbound_frame :: "transport_state \<Rightarrow> MQTTStatus \<Rightarrow> transport_state \<Rightarrow> bool" where
  "inbound_frame s status s1 =
     ((status = MQTTSuccess \<or> s1 = s)
      \<and> channel_received s1 = channel_received s \<and> channel_sent s1 = channel_sent s)"

text \<open>
  A PUBLISH packet: the fixed header byte with the DUP flag (bit 3), the QoS (bits 1
  and 2) and the RETAIN flag (bit 0), the encoded remaining length, the topic behind its
  length, the packet identifier when the QoS is not 0, and the payload. \<open>publish_header\<close>
  is the packet up to the payload, for a payload of the given length.
\<close>

definition u16_bytes :: "16 word \<Rightarrow> byte list" where
  "u16_bytes w = [ucast (drop_bit 8 w), ucast w]"

definition publish_flags_byte :: "bool \<Rightarrow> MQTTQoS \<Rightarrow> bool \<Rightarrow> byte" where
  "publish_flags_byte d q r =
     0x30 OR (if d then 0x08 else 0)
          OR (case q of MQTTQoS0 \<Rightarrow> 0 | MQTTQoS1 \<Rightarrow> 0x02 | MQTTQoS2 \<Rightarrow> 0x04)
          OR (if r then 0x01 else 0)"

definition publish_remaining_length :: "MQTTQoS \<Rightarrow> byte list \<Rightarrow> nat \<Rightarrow> nat" where
  "publish_remaining_length q topic payloadLen =
     2 + length topic + (if q = MQTTQoS0 then 0 else 2) + payloadLen"

definition publish_header ::
  "bool \<Rightarrow> MQTTQoS \<Rightarrow> bool \<Rightarrow> byte list \<Rightarrow> 16 word \<Rightarrow> nat \<Rightarrow> byte list" where
  "publish_header d q r topic pid payloadLen =
     publish_flags_byte d q r
       # encodeRemainingLength (publish_remaining_length q topic payloadLen)
       @ u16_bytes (word_of_nat (length topic)) @ topic
       @ (if q = MQTTQoS0 then [] else u16_bytes pid)"

text \<open>
  A SUBSCRIBE (or, without the QoS bytes, UNSUBSCRIBE) packet: the fixed header byte, the
  remaining length in one byte, the packet identifier, and the topic filters, each
  behind its length and, in a SUBSCRIBE, followed by the requested QoS. The declared
  remaining length is a parameter of its own: \<open>2 + entries_size subscribe filters\<close> in a
  well-formed packet.
\<close>

definition subscribe_entry :: "bool \<Rightarrow> byte list \<times> byte \<Rightarrow> byte list" where
  "subscribe_entry subscribe f =
     u16_bytes (word_of_nat (length (fst f))) @ fst f @ (if subscribe then [snd f] else [])"

definition entries_size :: "bool \<Rightarrow> (byte list \<times> byte) list \<Rightarrow> nat" where
  "entries_size subscribe filters = length (concat (map (subscribe_entry subscribe) filters))"

definition subscribe_packet ::
  "bool \<Rightarrow> nat \<Rightarrow> 16 word \<Rightarrow> (byte list \<times> byte) list \<Rightarrow> byte list" where
  "subscribe_packet subscribe remLength pid filters =
     (if subscribe then 0x82 else 0xA2) # word_of_nat remLength # u16_bytes pid
       @ concat (map (subscribe_entry subscribe) filters)"

section \<open>Properties\<close>

declare getRemainingLength_loop.simps [simp del]
declare encodeRemainingLength.simps [simp del]
declare parseConnect_scan.simps [simp del]

subsection \<open>Faults\<close>

lemma bindF_Inr [simp]: "bindF (Inr x) f = f x"
  by (simp add: bindF_def)

lemma bindF_Inl [simp]: "bindF (Inl e) f = Inl e"
  by (simp add: bindF_def)

subsection \<open>Bytes\<close>

lemma byte_low7: "(x::byte) AND 0x7F = take_bit 7 x"
  by (simp add: take_bit_eq_mask mask_eq_exp_minus_1)

lemma byte_80: "(0x80::byte) = 2 ^ 7"
  by simp

lemma unat_low7: "unat ((x::byte) AND 0x7F) = unat x mod 128"
proof -
  have "unat (take_bit 7 x) = take_bit 7 (unat x)"
    by (rule unsigned_take_bit_eq)
  also have "\<dots> = unat x mod 2 ^ 7"
    by (rule take_bit_eq_mod)
  finally show ?thesis
    by (simp add: byte_low7)
qed

lemma div128_one: "128 \<le> (n::nat) \<Longrightarrow> n < 256 \<Longrightarrow> n div 128 = 1"
  by (rule div_nat_eqI) simp_all

lemma odd_div128: "(n::nat) < 256 \<Longrightarrow> odd (n div 128) = (128 \<le> n)"
  by (cases "n < 128") (simp_all add: div128_one)

lemma byte_cont_iff: "((x::byte) AND 0x80 \<noteq> 0) = (128 \<le> unat x)"
proof -
  have a: "((x::byte) AND 2 ^ 7 \<noteq> 0) = bit x 7"
    using and_exp_eq_0_iff_not_bit [of x 7] by blast
  have "bit x 7 = bit (unat x) 7"
    by (simp add: bit_unsigned_iff)
  also have "\<dots> = odd (unat x div 2 ^ 7)"
    by (rule bit_iff_odd)
  finally have b: "bit x 7 = odd (unat x div 128)"
    by simp
  have "unat x < 256"
    using unsigned_less [of x] by simp
  then have "odd (unat x div 128) = (128 \<le> unat x)"
    by (rule odd_div128)
  with a b show ?thesis
    unfolding byte_80 by simp
qed

lemma unat_byte_of_nat: "k < 256 \<Longrightarrow> unat (of_nat k :: byte) = k"
  by (simp add: unat_of_nat)

lemma mod128_hi: "(z::nat) mod 128 = y \<Longrightarrow> 128 \<le> z \<Longrightarrow> z < 256 \<Longrightarrow> z = y + 128"
  by (metis add.commute le_add_diff_inverse less_diff_conv2 mod_less mod_add_self2 numeral_Bit0)

lemma unat_or80: 
  assumes "unat (y::byte) < 128"
  shows "unat (y OR 0x80) = unat y + 128"
proof -
  let ?z = "y OR 0x80"
  have "take_bit 7 (0x80 :: byte) = 0"
    unfolding byte_80 by simp
  then have "take_bit 7 ?z = take_bit 7 y"
    by (simp add: take_bit_or del: take_bit_of_nat)
  then have "?z AND 0x7F = y AND 0x7F"
    by (simp only: byte_low7)
  then have low: "unat ?z mod 128 = unat y"
    using unat_low7 [of ?z] unat_low7 [of y] assms by simp
  have "(y OR 2 ^ 7) AND 2 ^ 7 \<noteq> 0"
  proof
    assume "(y OR 2 ^ 7) AND 2 ^ 7 = 0"
    then have "\<not> bit (y OR 2 ^ 7) 7"
      by (rule and_exp_eq_0_iff_not_bit [THEN iffD1])
    then show False
      by (simp add: bit_or_iff bit_exp_iff)
  qed
  then have "?z AND 0x80 \<noteq> 0"
    by simp
  then have hi: "128 \<le> unat ?z"
    by (simp only: byte_cont_iff)
  have "unat ?z < 256"
    using unsigned_less [of ?z] by simp
  with low hi show ?thesis
    by (rule mod128_hi)
qed

lemma enc_small: "n < 128 \<Longrightarrow> encodeRemainingLength n = [of_nat n]"
  by (subst encodeRemainingLength.simps) simp

lemma enc_big:
  "128 \<le> n \<Longrightarrow> encodeRemainingLength n =
     ((of_nat (n mod 128) :: byte) OR 0x80) # encodeRemainingLength (n div 128)"
  by (subst encodeRemainingLength.simps) (simp add: Let_def div_greater_zero_iff)

lemma enc_length:
  "0 < k \<Longrightarrow> n < 128 ^ k \<Longrightarrow> length (encodeRemainingLength n) \<le> k"
proof (induction k arbitrary: n)
  case 0
  then show ?case by simp
next
  case (Suc k)
  show ?case
  proof (cases "n < 128")
    case True
    then show ?thesis by (simp add: enc_small)
  next
    case False
    then have big: "128 \<le> n" by simp
    from Suc.prems have "n div 128 < 128 ^ k"
      by (simp add: less_mult_imp_div_less mult.commute)
    moreover from big have "0 < n div 128"
      by (simp add: div_greater_zero_iff)
    ultimately have "0 < k"
      by (cases k) simp_all
    with Suc.IH \<open>n div 128 < 128 ^ k\<close> have "length (encodeRemainingLength (n div 128)) \<le> k"
      by blast
    with big show ?thesis by (simp add: enc_big)
  qed
qed

lemma enc_nonempty: "encodeRemainingLength n \<noteq> []"
  by (cases "n < 128") (simp_all add: enc_small enc_big)

lemma getRemainingLength_loop_enc:
  "0 < k \<Longrightarrow> n < 128 ^ k \<Longrightarrow> m * 128 ^ (k - 1) \<le> 2097152 \<Longrightarrow>
   take (length (encodeRemainingLength n)) (drop (off + e) buf) = encodeRemainingLength n \<Longrightarrow>
   getRemainingLength_loop buf off r m e = Inr (r + n * m, e + length (encodeRemainingLength n))"
proof (induction k arbitrary: n r m e)
  case 0
  then show ?case by simp
next
  case (Suc k)
  have "m \<le> m * 128 ^ (Suc k - 1)"
    by simp
  from this Suc.prems(3) have m: "m \<le> 2097152"
    by (rule order_trans)
  have inb: "off + e < length buf"
  proof (rule ccontr)
    assume "\<not> off + e < length buf"
    then have "drop (off + e) buf = []" by simp
    with Suc.prems(4) show False using enc_nonempty [of n] by simp
  qed
  then have dr: "drop (off + e) buf = buf ! (off + e) # drop (Suc (off + e)) buf"
    by (simp add: Cons_nth_drop_Suc)
  show ?case
  proof (cases "n < 128")
    case True
    with Suc.prems(4) dr have b: "buf ! (off + e) = of_nat n"
      by (simp add: enc_small)
    from True have "unat (of_nat n :: byte) = n"
      by (simp add: unat_byte_of_nat)
    with True have "\<not> ((of_nat n :: byte) AND 0x80 \<noteq> 0)" "unat ((of_nat n :: byte) AND 0x7F) = n"
      by (simp_all only: byte_cont_iff unat_low7) simp_all
    with m inb b True show ?thesis
      by (subst getRemainingLength_loop.simps) (simp add: enc_small Let_def)
  next
    case False
    then have big: "128 \<le> n" by simp
    let ?b = "(of_nat (n mod 128) :: byte) OR 0x80"
    from Suc.prems(4) dr big have b: "buf ! (off + e) = ?b"
      and tl: "take (length (encodeRemainingLength (n div 128))) (drop (off + (e + 1)) buf)
                = encodeRemainingLength (n div 128)"
      by (simp_all add: enc_big)
    have u: "unat (of_nat (n mod 128) :: byte) = n mod 128"
      by (simp add: unat_byte_of_nat)
    then have "unat ?b = n mod 128 + 128"
      using unat_or80 [of "of_nat (n mod 128)"] by simp
    then have cont: "?b AND 0x80 \<noteq> 0" and low: "unat (?b AND 0x7F) = n mod 128"
      by (simp_all only: byte_cont_iff unat_low7) simp_all
    from Suc.prems have lt: "n div 128 < 128 ^ k"
      by (simp add: less_mult_imp_div_less mult.commute)
    moreover from big have "0 < n div 128"
      by (simp add: div_greater_zero_iff)
    ultimately have k: "0 < k"
      by (cases k) simp_all
    then have "128 ^ (Suc k - 1) = (128::nat) * 128 ^ (k - 1)"
      by (cases k) simp_all
    with Suc.prems(3) have m': "(m * 128) * 128 ^ (k - 1) \<le> 2097152"
      by (simp add: mult.assoc)
    have "getRemainingLength_loop buf off (r + (n mod 128) * m) (m * 128) (e + 1)
          = Inr (r + (n mod 128) * m + (n div 128) * (m * 128),
                 e + 1 + length (encodeRemainingLength (n div 128)))"
      by (rule Suc.IH [OF k lt m' tl])
    moreover have "(n mod 128) * m + (n div 128) * (m * 128) = n * m"
    proof -
      have "n * m = (n div 128 * 128 + n mod 128) * m"
        by simp
      then show ?thesis
        by (simp only: add_mult_distrib add_mult_distrib2 mult_ac add_ac)
    qed
    ultimately show ?thesis
      using m inb b cont low big
      by (subst getRemainingLength_loop.simps) (simp add: enc_big Let_def)
  qed
qed

lemma getRemainingLength_enc:
  assumes "n < 268435456"
  shows "getRemainingLength (pre @ encodeRemainingLength n @ rest) (length pre)
         = Inr (n, length (encodeRemainingLength n))"
proof -
  have "getRemainingLength_loop (pre @ encodeRemainingLength n @ rest) (length pre) 0 1 0
        = Inr (0 + n * 1, 0 + length (encodeRemainingLength n))"
    using assms by (intro getRemainingLength_loop_enc [where k = 4]) simp_all
  then show ?thesis
    by (simp add: getRemainingLength_def)
qed

lemma length4E:
  "4 \<le> length (xs :: 'a list) \<Longrightarrow> \<exists>a b c d r. xs = a # b # c # d # r"
  by (auto simp: numeral_eq_Suc Suc_le_length_iff)

lemma length5E:
  "5 \<le> length (xs :: 'a list) \<Longrightarrow> \<exists>a b c d e r. xs = a # b # c # d # e # r"
  by (auto simp: numeral_eq_Suc Suc_le_length_iff)

subsection \<open>The remaining-length codec\<close>

text \<open>
  C5: for every length \<open>n\<close> from 0 to 268,435,455, decoding the bytes that
  \<open>encodeRemainingLength\<close> writes for \<open>n\<close> returns \<open>n\<close> (and the number of bytes read is
  the number written), and \<open>encodeRemainingLength\<close> writes at most 4 bytes.
\<close>

theorem varint_roundtrip:
  assumes "n \<le> 268435455"
  shows "getRemainingLength (encodeRemainingLength n) 0
           = Inr (n, length (encodeRemainingLength n))
         \<and> length (encodeRemainingLength n) \<le> 4"
proof
  from assms have "n < 268435456" by simp
  from getRemainingLength_enc [OF this, of "[]" "[]"]
  show "getRemainingLength (encodeRemainingLength n) 0
           = Inr (n, length (encodeRemainingLength n))"
    by simp
  from assms show "length (encodeRemainingLength n) \<le> 4"
    by (intro enc_length) simp_all
qed

theorem varint_roundtrip_witness:
  "encodeRemainingLength 268435455 = [0xFF, 0xFF, 0xFF, 0x7F]
   \<and> getRemainingLength [0xFF, 0xFF, 0xFF, 0x7F] 0 = Inr (268435455, 4)"
proof -
  have e: "encodeRemainingLength 268435455 = [0xFF, 0xFF, 0xFF, 0x7F]"
    by (simp add: enc_big enc_small)
  with varint_roundtrip [of 268435455] show ?thesis
    by simp
qed

subsection \<open>Acknowledgements\<close>

lemma suback_any:
  assumes "5 \<le> length buf" and "packetId \<noteq> 0"
  shows "transportSerializeSuback buf t packetId
     = Inr (MQTTSuccess, [t, 3, ucast (drop_bit 8 packetId), ucast (packetId AND 0x00ff), 1]
                           @ drop 5 buf)"
proof -
  from assms(1) obtain a b c d e r where "buf = a # b # c # d # e # r"
    using length5E by blast
  with assms(2) show ?thesis
    by (simp add: transportSerializeSuback_def configASSERT_def SIZE_OF_SUB_ACK_def)
qed

text \<open>
  C7: in a buffer of sufficient capacity, serializing a PUBACK with packet identifier 0
  fails with \<open>MQTTBadParameter\<close> and writes nothing; with packet identifier 42 it writes
  exactly the 4 bytes PUBACK type, 2, 0x00, 0x2A; serializing a SUBACK with packet
  identifier 7 writes exactly the 5 bytes SUBACK type, 3, 0x00, 0x07, 0x01. The granted
  QoS is 1 whatever the packet identifier (other than 0) and the packet type byte.
\<close>

theorem ack_serializers:
  "(4 \<le> length buf \<longrightarrow>
      transportSerializeAck buf MQTT_PACKET_TYPE_PUBACK 0 = Inr (MQTTBadParameter, buf)
    \<and> transportSerializeAck buf MQTT_PACKET_TYPE_PUBACK 42
        = Inr (MQTTSuccess, [MQTT_PACKET_TYPE_PUBACK, 2, 0x00, 0x2A] @ drop 4 buf))
   \<and> (5 \<le> length buf \<longrightarrow>
      transportSerializeSuback buf MQTT_PACKET_TYPE_SUBACK 7
        = Inr (MQTTSuccess, [MQTT_PACKET_TYPE_SUBACK, 3, 0x00, 0x07, 0x01] @ drop 5 buf))
   \<and> (5 \<le> length buf \<and> packetId \<noteq> 0 \<longrightarrow>
      transportSerializeSuback buf packetType packetId
        = Inr (MQTTSuccess,
               [packetType, 3, ucast (drop_bit 8 packetId), ucast (packetId AND 0x00ff), 1]
                 @ drop 5 buf))"
proof (intro conjI impI)
  assume "4 \<le> length buf"
  then show "transportSerializeAck buf MQTT_PACKET_TYPE_PUBACK 0 = Inr (MQTTBadParameter, buf)"
    by (simp add: transportSerializeAck_def bindF_def configASSERT_def SIZE_OF_SIMPLE_ACK_def)
next
  assume a: "4 \<le> length buf"
  then obtain a b c d r where "buf = a # b # c # d # r"
    using length4E by blast
  then show "transportSerializeAck buf MQTT_PACKET_TYPE_PUBACK 42
        = Inr (MQTTSuccess, [MQTT_PACKET_TYPE_PUBACK, 2, 0x00, 0x2A] @ drop 4 buf)"
    by (simp add: transportSerializeAck_def bindF_def configASSERT_def SIZE_OF_SIMPLE_ACK_def)
next
  assume "5 \<le> length buf"
  then obtain a b c d e r where "buf = a # b # c # d # e # r"
    using length5E by blast
  then show "transportSerializeSuback buf MQTT_PACKET_TYPE_SUBACK 7
        = Inr (MQTTSuccess, [MQTT_PACKET_TYPE_SUBACK, 3, 0x00, 0x07, 0x01] @ drop 5 buf)"
    by (simp add: transportSerializeSuback_def bindF_def configASSERT_def SIZE_OF_SUB_ACK_def)
next
  assume "5 \<le> length buf \<and> packetId \<noteq> 0"
  then show "transportSerializeSuback buf packetType packetId
        = Inr (MQTTSuccess,
               [packetType, 3, ucast (drop_bit 8 packetId), ucast (packetId AND 0x00ff), 1]
                 @ drop 5 buf)"
    using suback_any by blast
qed

theorem ack_serializers_witness:
  "transportSerializeAck [0, 0, 0, 0, 0] MQTT_PACKET_TYPE_PUBACK 0
     = Inr (MQTTBadParameter, [0, 0, 0, 0, 0])
   \<and> transportSerializeAck [0, 0, 0, 0, 0] MQTT_PACKET_TYPE_PUBACK 42
       = Inr (MQTTSuccess, [MQTT_PACKET_TYPE_PUBACK, 2, 0x00, 0x2A, 0])
   \<and> transportSerializeSuback [0, 0, 0, 0, 0] MQTT_PACKET_TYPE_SUBACK 7
       = Inr (MQTTSuccess, [MQTT_PACKET_TYPE_SUBACK, 3, 0x00, 0x07, 0x01])"
  using ack_serializers [of "[0, 0, 0, 0, 0]" 7 MQTT_PACKET_TYPE_SUBACK] by simp

subsection \<open>The CONNECT parser\<close>

lemma rd_append_right: "rd (pre @ xs) (length pre + k) = rd xs k"
  by (simp add: rd_def)

lemma scan_absent:
  "77 \<notin> set (drop i buf) \<Longrightarrow> parseConnect_scan buf i = Inl OutOfBounds"
proof (induction buf i rule: parseConnect_scan.induct)
  case (1 buf bufferIndex)
  show ?case
  proof (cases "bufferIndex < length buf")
    case False
    then show ?thesis
      by (subst parseConnect_scan.simps) simp
  next
    case True
    then have d: "drop bufferIndex buf = buf ! bufferIndex # drop (bufferIndex + 1) buf"
      by (simp add: Cons_nth_drop_Suc)
    with "1.prems" have ne: "buf ! bufferIndex \<noteq> 77" and rest: "77 \<notin> set (drop (bufferIndex + 1) buf)"
      by auto
    from "1.IH" [OF True ne rest] True ne show ?thesis
      by (subst parseConnect_scan.simps) simp
  qed
qed

lemma scan_found:
  "77 \<notin> set pre \<Longrightarrow> i \<le> length pre \<Longrightarrow>
   parseConnect_scan (pre @ 77 # post) i = Inr (length pre)"
proof (induction "length pre - i" arbitrary: i)
  case 0
  then have "i = length pre" by simp
  then show ?case
    by (subst parseConnect_scan.simps) simp
next
  case (Suc d)
  then have lt: "i < length pre" by simp
  with Suc.prems have "pre ! i \<noteq> 77"
    by (metis nth_mem)
  moreover from Suc have "parseConnect_scan (pre @ 77 # post) (i + 1) = Inr (length pre)"
    by (intro Suc.hyps) simp_all
  ultimately show ?case
    using lt by (subst parseConnect_scan.simps) (simp add: nth_append)
qed

text \<open>
  C10: a CONNECT buffer that contains no byte 0x4D drives the scan for the protocol name
  past the end of the buffer: the parser ends in the out-of-range read. The scan is
  not bounded by the remaining length the buffer declares.
\<close>

theorem connect_scan_out_of_bounds:
  assumes "buf \<noteq> []" and "hd buf AND 0xf0 = MQTT_PACKET_TYPE_CONNECT" and "77 \<notin> set buf"
  shows "parseConnect connectConfig buf = Inl OutOfBounds"
proof -
  from assms(1) have "rd buf 0 = Inr (hd buf)"
    by (cases buf) (simp_all add: rd_def)
  moreover from assms(3) have "parseConnect_scan buf 0 = Inl OutOfBounds"
    by (intro scan_absent) simp
  ultimately show ?thesis
    using assms(2) by (simp add: parseConnect_def configASSERT_def)
qed

theorem connect_scan_out_of_bounds_witness:
  "77 \<notin> set [0x10, 0x02, 0x00, 0x04 :: byte]
   \<and> parseConnect MQTTConnectInfo_zero [0x10, 0x02, 0x00, 0x04] = Inl OutOfBounds"
  using connect_scan_out_of_bounds [of "[0x10, 0x02, 0x00, 0x04]" MQTTConnectInfo_zero]
  by (simp add: MQTT_PACKET_TYPE_CONNECT_def)

lemma connect_type_not_M: "(b0::byte) AND 0xf0 = MQTT_PACKET_TYPE_CONNECT \<Longrightarrow> b0 \<noteq> 77"
  by (auto simp: MQTT_PACKET_TYPE_CONNECT_def)

lemma getIntFromTwoBytes_val:
  "rd buf i = Inr a \<Longrightarrow> rd buf (Suc i) = Inr b \<Longrightarrow>
   getIntFromTwoBytes buf i = Inr (push_bit 8 (ucast a) + ucast b)"
  by (simp add: getIntFromTwoBytes_def)

lemma parseConnect_found:
  assumes t: "b0 AND 0xf0 = MQTT_PACKET_TYPE_CONNECT"
    and pre: "77 \<notin> set pre"
    and bad: "lv \<noteq> 4 \<or> fl AND 0x01 \<noteq> 0 \<or> (h = 0 \<and> l = 0)"
  shows "\<exists>cfg. parseConnect c ((b0 # pre) @ 77 # x1 # x2 # x3 # lv # fl # k1 # k2 # h # l # rest)
               = Inr (MQTTBadParameter, cfg)"
proof -
  define m where "m = length (b0 # pre)"
  define post where "post = 77 # x1 # x2 # x3 # lv # fl # k1 # k2 # h # l # rest"
  define buf where "buf = (b0 # pre) @ post"
  have r0: "rd buf 0 = Inr b0"
    by (simp add: buf_def rd_def)
  from t pre have "77 \<notin> set (b0 # pre)"
    using connect_type_not_M by auto
  then have sc: "parseConnect_scan buf 0 = Inr m"
    unfolding buf_def post_def m_def by (intro scan_found) simp_all
  have rdk: "rd buf (m + k) = rd post k" for k
    unfolding buf_def m_def by (rule rd_append_right)
  have r4: "rd buf (m + 4) = Inr lv" and r5: "rd buf (m + 5) = Inr fl"
    and r6: "rd buf (m + 6) = Inr k1" and r7: "rd buf (m + 7) = Inr k2"
    and r8: "rd buf (m + 8) = Inr h" and r9: "rd buf (m + 9) = Inr l"
    unfolding rdk by (simp_all add: post_def rd_def)
  note rc = r4 [unfolded add.commute [of m]] r5 [unfolded add.commute [of m]]
    r6 [unfolded add.commute [of m]] r7 [unfolded add.commute [of m]]
    r8 [unfolded add.commute [of m]] r9 [unfolded add.commute [of m]]
  have "\<exists>cfg. parseConnect c buf = Inr (MQTTBadParameter, cfg)"
  proof (cases "lv \<noteq> 4 \<or> fl AND 0x01 \<noteq> 0")
    case True
    then show ?thesis
      using r0 t sc r4 r5 by (auto simp add: parseConnect_def configASSERT_def Let_def)
  next
    case False
    with bad have z: "h = 0" "l = 0" by simp_all
    have g: "getIntFromTwoBytes buf (m + 8) = Inr 0"
      using getIntFromTwoBytes_val [of buf "m + 8" h l] r8 r9 rc z by simp
    have k: "\<exists>v. getIntFromTwoBytes buf (m + 6) = Inr v"
      using getIntFromTwoBytes_val [of buf "m + 6" k1 k2] r6 r7 rc by simp
    from False g k show ?thesis
      using r0 t sc r4 r5 g [unfolded add.commute [of m]] k [unfolded add.commute [of m]]
      by (auto simp add: parseConnect_def configASSERT_def Let_def add.assoc
          parseConnect_will_def parseConnect_username_def parseConnect_password_def)
  qed
  then show ?thesis
    by (simp add: buf_def post_def)
qed

lemma enc_cont_not_M: "(of_nat (n mod 128) :: byte) OR 0x80 \<noteq> 77"
proof
  assume a: "(of_nat (n mod 128) :: byte) OR 0x80 = 77"
  have "unat (of_nat (n mod 128) :: byte) = n mod 128"
    by (simp add: unat_byte_of_nat)
  then have "unat ((of_nat (n mod 128) :: byte) OR 0x80) = n mod 128 + 128"
    using unat_or80 [of "of_nat (n mod 128)"] by simp
  with a show False by simp
qed

lemma enc_M:
  "77 \<in> set (encodeRemainingLength n) \<Longrightarrow>
   \<exists>pre. encodeRemainingLength n = pre @ [77] \<and> 77 \<notin> set pre"
proof (induction n rule: less_induct)
  case (less n)
  show ?case
  proof (cases "n < 128")
    case True
    with less.prems show ?thesis
      by (simp add: enc_small)
  next
    case False
    then have big: "128 \<le> n" by simp
    then have "n div 128 < n" by simp
    moreover from less.prems big have "77 \<in> set (encodeRemainingLength (n div 128))"
      using enc_cont_not_M [of n] by (simp add: enc_big)
    ultimately obtain pre where
      "encodeRemainingLength (n div 128) = pre @ [77]" "77 \<notin> set pre"
      using less.IH by blast
    with big have
      "encodeRemainingLength n = (((of_nat (n mod 128) :: byte) OR 0x80) # pre) @ [77]
       \<and> 77 \<notin> set (((of_nat (n mod 128) :: byte) OR 0x80) # pre)"
      using enc_cont_not_M [of n] by (simp add: enc_big) 
    then show ?thesis by blast
  qed
qed

text \<open>
  C6: a CONNECT packet whose protocol level is not 4, or whose reserved connect flag
  (the least significant bit) is set, or whose client identifier has length 0, makes
  \<open>parseConnect\<close> return \<open>MQTTBadParameter\<close>; so it succeeds on none of them. The
  remaining length may have any value.
\<close>

theorem connect_rejects:
  assumes t: "b0 AND 0xf0 = MQTT_PACKET_TYPE_CONNECT"
    and bad: "level \<noteq> 4 \<or> connectFlags AND 0x01 \<noteq> 0 \<or> idLength = 0"
  shows "\<exists>cfg. parseConnect connectConfig
                 (connect_packet b0 remLength level connectFlags keepAlive idLength rest)
               = Inr (MQTTBadParameter, cfg)"
proof (cases "77 \<in> set (encodeRemainingLength remLength)")
  case False
  from bad have "level \<noteq> 4 \<or> connectFlags AND 0x01 \<noteq> 0
      \<or> ((ucast (drop_bit 8 idLength) :: byte) = 0 \<and> (ucast idLength :: byte) = 0)"
    by auto
  from parseConnect_found [OF t _ this,
      where pre = "encodeRemainingLength remLength @ [0x00, 0x04]" and c = connectConfig
        and ?x1.0 = "0x51" and ?x2.0 = "0x54" and ?x3.0 = "0x54"
        and ?k1.0 = "ucast (drop_bit 8 keepAlive)" and ?k2.0 = "ucast keepAlive"
        and rest = rest] False
  show ?thesis
    by (simp add: connect_packet_def)
next
  case True
  then obtain pre where e: "encodeRemainingLength remLength = pre @ [77]" and p: "77 \<notin> set pre"
    using enc_M by blast
  have "(0x51 :: byte) \<noteq> 4 \<or> (0x54 :: byte) AND 0x01 \<noteq> 0
      \<or> (connectFlags = 0 \<and> (ucast (drop_bit 8 keepAlive) :: byte) = 0)"
    by simp
  from parseConnect_found [OF t p this,
      where c = connectConfig and ?x1.0 = "0x00" and ?x2.0 = "0x04" and ?x3.0 = "0x4D"
        and ?k1.0 = "0x54" and ?k2.0 = level
        and rest = "[ucast keepAlive, ucast (drop_bit 8 idLength), ucast idLength] @ rest"] e
  show ?thesis
    by (simp add: connect_packet_def)
qed

theorem connect_rejects_witness:
  "(\<exists>cfg. parseConnect MQTTConnectInfo_zero
            [0x10, 0x0D, 0x00, 0x04, 0x4D, 0x51, 0x54, 0x54, 0x05, 0x02, 0x00, 0x3C, 0x00, 0x01, 0x61]
          = Inr (MQTTBadParameter, cfg))
   \<and> (\<exists>cfg. parseConnect MQTTConnectInfo_zero
            [0x10, 0x0D, 0x00, 0x04, 0x4D, 0x51, 0x54, 0x54, 0x04, 0x03, 0x00, 0x3C, 0x00, 0x01, 0x61]
          = Inr (MQTTBadParameter, cfg))
   \<and> (\<exists>cfg. parseConnect MQTTConnectInfo_zero
            [0x10, 0x0C, 0x00, 0x04, 0x4D, 0x51, 0x54, 0x54, 0x04, 0x02, 0x00, 0x3C, 0x00, 0x00]
          = Inr (MQTTBadParameter, cfg))"
  using connect_rejects [where ?b0.0 = "0x10" and level = "0x05" and connectFlags = "0x02"
      and idLength = 1 and connectConfig = MQTTConnectInfo_zero and remLength = 13
      and keepAlive = 60 and rest = "[0x61]"]
    connect_rejects [where ?b0.0 = "0x10" and level = "0x04" and connectFlags = "0x03"
      and idLength = 1 and connectConfig = MQTTConnectInfo_zero and remLength = 13
      and keepAlive = 60 and rest = "[0x61]"]
    connect_rejects [where ?b0.0 = "0x10" and level = "0x04" and connectFlags = "0x02"
      and idLength = 0 and connectConfig = MQTTConnectInfo_zero and remLength = 12
      and keepAlive = 60 and rest = "[]"]
  by (simp add: connect_packet_def enc_small MQTT_PACKET_TYPE_CONNECT_def)

subsection \<open>The outbound dispatcher\<close>

lemma rd_hd: "buf \<noteq> [] \<Longrightarrow> rd buf 0 = Inr (hd buf)"
  by (cases buf) (simp_all add: rd_def)

lemma rd_Nil: "rd [] i = Inl OutOfBounds"
  by (simp add: rd_def)

text \<open>
  C3: while a publish is being reassembled, an outbound call whose buffer length differs
  from the payload length computed from the header is stopped by the assertion of
  \<open>handleOutgoingPublish\<close>: the call does not return, the buffer is not taken as the
  payload and nothing is serialized or sent. (An empty buffer is stopped one step
  earlier, at the read of its first byte.)
\<close>

theorem mismatched_continuation_rejected:
  assumes "pending (publishInfo s)"
    and "payloadLength (info (publishInfo s)) \<noteq> length buf"
  shows "handleOutgoingPublish ext (publishInfo s) buf (length buf) = Inl AssertFailed
         \<and> IotBleMqttTransportSend ext s buf
             = Inl (if buf = [] then OutOfBounds else AssertFailed)"
proof
  from assms show h: "handleOutgoingPublish ext (publishInfo s) buf (length buf) = Inl AssertFailed"
    by (simp add: handleOutgoingPublish_def handleOutgoingPublish_info_def configASSERT_def)
  show "IotBleMqttTransportSend ext s buf = Inl (if buf = [] then OutOfBounds else AssertFailed)"
  proof (cases "buf = []")
    case True
    then show ?thesis
      by (simp add: IotBleMqttTransportSend_def rd_Nil)
  next
    case False
    with assms(1) h show ?thesis
      by (simp add: IotBleMqttTransportSend_def IotBleMqttTransportSend_dispatch_def rd_hd Let_def)
  qed
qed

theorem mismatched_continuation_rejected_witness:
  "IotBleMqttTransportSend stub_externals
     (idle_state\<lparr>publishInfo := MQTTBLEPublishInfo_zero
        \<lparr>info := (info MQTTBLEPublishInfo_zero)\<lparr>payloadLength := 3\<rparr>, pending := True\<rparr>\<rparr>)
     [0x68, 0x69]
   = Inl AssertFailed"
  using mismatched_continuation_rejected [of
      "idle_state\<lparr>publishInfo := MQTTBLEPublishInfo_zero
        \<lparr>info := (info MQTTBLEPublishInfo_zero)\<lparr>payloadLength := 3\<rparr>, pending := True\<rparr>\<rparr>"
      "[0x68, 0x69]" stub_externals]
  by (simp add: MQTTBLEPublishInfo_zero_def)

lemma handleOutgoingPublish_pending:
  assumes "handleOutgoingPublish ext p buf n = Inr (status, frame, p1)" and "pending p1"
  shows "status = MQTTSuccess \<and> frame = []"
  using assms
  by (auto simp: handleOutgoingPublish_def bindF_def MQTTBLEPublishInfo_zero_def Let_def
      split: sum.splits if_splits prod.splits)

lemma dispatch_frame:
  assumes "IotBleMqttTransportSend_dispatch ext s buf t = Inr (status, frame, s1)"
  shows "channel_sent s1 = channel_sent s \<and> xStreamBuffer s1 = xStreamBuffer s
         \<and> channel_received s1 = channel_received s
         \<and> (pending (publishInfo s1) \<longrightarrow> status = MQTTSuccess \<and> frame = [])"
proof (cases "pending (publishInfo s) \<or> t = CLIENT_PACKET_TYPE_PUBLISH")
  case True
  then have "\<exists>p. handleOutgoingPublish ext (publishInfo s) buf (length buf) = Inr (status, frame, p)
      \<and> s1 = s\<lparr>publishInfo := p\<rparr>"
    using assms
    by (auto simp: IotBleMqttTransportSend_dispatch_def bindF_def 
        CLIENT_PACKET_TYPE_PUBLISH_def CLIENT_PACKET_TYPE_CONNECT_def
        split: sum.splits if_splits)
  then show ?thesis
    using handleOutgoingPublish_pending by fastforce
next
  case False
  then have np: "\<not> pending (publishInfo s)" and nt: "t \<noteq> CLIENT_PACKET_TYPE_PUBLISH"
    by simp_all
  from assms np nt have "channel_sent s1 = channel_sent s \<and> xStreamBuffer s1 = xStreamBuffer s
         \<and> channel_received s1 = channel_received s \<and> publishInfo s1 = publishInfo s"
    by (auto simp: IotBleMqttTransportSend_dispatch_def bindF_def Let_def
        split: sum.splits if_splits prod.splits)
  with np show ?thesis by simp
qed

lemma int32_cast_small:
  assumes "n < 2147483648"
  shows "int32_cast n = int n"
proof -
  from assms have "take_bit 32 n = n"
    by (simp add: take_bit_nat_eq_self)
  then have "sint (word_of_nat n :: 32 word) = signed_take_bit (LENGTH(32) - Suc 0) (int n)"
    by (simp add: sint_uint unsigned_of_nat signed_take_bit_take_bit)
  also have "\<dots> = int n"
    using assms by (simp add: signed_take_bit_int_eq_self)
  finally show ?thesis
    by (simp add: int32_cast_def)
qed

text \<open>
  C1, as amended: a call of \<open>IotBleMqttTransportSend\<close> that returns reports 0 when the
  handler returned an error, and nothing is handed to the channel; it reports the
  buffer's length \<open>L\<close> (as \<open>int32_t\<close>) when the payload of a PUBLISH is still pending, or
  the serializer produced no bytes, and nothing is handed to the channel; otherwise the
  frame is handed to the channel's send primitive, and the call reports \<open>L\<close> when the
  primitive sent the whole frame and 0 when it did not. The cast leaves every
  \<open>L\<close> below \<open>2^31\<close> as it is.
\<close>

theorem send_byte_count:
  assumes "IotBleMqttTransportSend ext s buf = Inr (n, s')"
  shows "(\<exists>status frame s1.
           IotBleMqttTransportSend_dispatch ext s buf (hd buf AND 0xF0) = Inr (status, frame, s1)
           \<and> (if status \<noteq> MQTTSuccess then
                 n = 0 \<and> channel_sent s' = channel_sent s
               else if pending (publishInfo s') then
                 n = int32_cast (length buf) \<and> channel_sent s' = channel_sent s
               else if frame = [] then
                 n = int32_cast (length buf) \<and> channel_sent s' = channel_sent s
               else
                 channel_sent s' = channel_sent s @ [frame]
                 \<and> n = (if IotBleDataTransfer_Send ext frame = length frame
                        then int32_cast (length buf) else 0)))
         \<and> (length buf < 2147483648 \<longrightarrow> int32_cast (length buf) = int (length buf))"
proof -
  from assms have ne: "buf \<noteq> []"
    by (auto simp: IotBleMqttTransportSend_def rd_Nil)
  with assms obtain status frame s1 where
    d: "IotBleMqttTransportSend_dispatch ext s buf (hd buf AND 0xF0) = Inr (status, frame, s1)"
    by (auto simp: IotBleMqttTransportSend_def rd_hd bindF_def Let_def split: sum.splits)
  note f = dispatch_frame [OF d]
  from assms ne d have r: "(n, s') =
      (if status = MQTTSuccess then
         (if length frame > 0 then
            (if IotBleDataTransfer_Send ext frame \<noteq> length frame then 0
             else int32_cast (length buf),
             s1\<lparr>channel_sent := channel_sent s1 @ [frame]\<rparr>)
          else (int32_cast (length buf), s1))
       else (0, s1))"
    by (auto simp add: IotBleMqttTransportSend_def rd_hd Let_def split: if_splits)
  have "\<exists>status frame s1.
           IotBleMqttTransportSend_dispatch ext s buf (hd buf AND 0xF0) = Inr (status, frame, s1)
           \<and> (if status \<noteq> MQTTSuccess then
                 n = 0 \<and> channel_sent s' = channel_sent s
               else if pending (publishInfo s') then
                 n = int32_cast (length buf) \<and> channel_sent s' = channel_sent s
               else if frame = [] then
                 n = int32_cast (length buf) \<and> channel_sent s' = channel_sent s
               else
                 channel_sent s' = channel_sent s @ [frame]
                 \<and> n = (if IotBleDataTransfer_Send ext frame = length frame
                        then int32_cast (length buf) else 0))"
  proof (intro exI conjI)
    show "IotBleMqttTransportSend_dispatch ext s buf (hd buf AND 0xF0) = Inr (status, frame, s1)"
      by (rule d)
    show "if status \<noteq> MQTTSuccess then n = 0 \<and> channel_sent s' = channel_sent s
          else if pending (publishInfo s') then
                 n = int32_cast (length buf) \<and> channel_sent s' = channel_sent s
          else if frame = [] then
                 n = int32_cast (length buf) \<and> channel_sent s' = channel_sent s
          else channel_sent s' = channel_sent s @ [frame]
               \<and> n = (if IotBleDataTransfer_Send ext frame = length frame
                      then int32_cast (length buf) else 0)"
      using r f by (auto split: if_splits)
  qed
  with int32_cast_small show ?thesis
    by blast
qed

lemmas stub_eval =
  stub_externals_def idle_state_def bytes_of_def MQTTBLEPublishInfo_zero_def
  IotBleMqttTransportSend_def IotBleMqttTransportSend_dispatch_def
  handleOutgoingPublish_def handleOutgoingPublish_info_def parsePublish_def
  handleOutgoingPingReq_def handleOutgoingDisconnect_def
  getRemainingLength_def getRemainingLength_loop.simps UINT16_DECODE_def
  getIntFromTwoBytes_def rd_def configASSERT_def region_def ptr_def convertIntToQos_def
  PUBLISH_FLAG_RETAIN_MASK_def PUBLISH_FLAG_QOS_MASK_def PUBLISH_FLAG_DUP_MASK_def
  REMAINING_LENGTH_INVALID_def SIZE_MAX1_def int32_cast_def Let_def
  CLIENT_PACKET_TYPE_CONNECT_def CLIENT_PACKET_TYPE_PUBLISH_def CLIENT_PACKET_TYPE_PUBACK_def
  CLIENT_PACKET_TYPE_PUBREC_def CLIENT_PACKET_TYPE_PUBREL_def CLIENT_PACKET_TYPE_PUBCOMP_def
  CLIENT_PACKET_TYPE_SUBSCRIBE_def CLIENT_PACKET_TYPE_UNSUBSCRIBE_def
  CLIENT_PACKET_TYPE_PINGREQ_def CLIENT_PACKET_TYPE_DISCONNECT_def

text \<open>
  C1 as stated fails: the header chunk of a PUBLISH whose payload is still to come is
  reported as written in full (5 bytes here), not as 0, while no frame is sent.
\<close>

theorem send_pending_counterexample:
  "\<exists>s'. IotBleMqttTransportSend stub_externals idle_state [0x30, 0x05, 0x00, 0x01, 0x61]
           = Inr (5, s')
        \<and> pending (publishInfo s') \<and> channel_sent s' = channel_sent idle_state"
  by (simp add: stub_eval)

theorem send_byte_count_witness:
  "IotBleMqttTransportSend stub_externals idle_state [0xC0, 0x00]
     = Inr (2, idle_state\<lparr>channel_sent := [[0x0C]]\<rparr>)
   \<and> IotBleMqttTransportSend_dispatch stub_externals idle_state [0xC0, 0x00] 0xC0
       = Inr (MQTTSuccess, [0x0C], idle_state)"
proof -
  have e: "IotBleMqttTransportSend stub_externals idle_state [0xC0, 0x00]
     = Inr (2, idle_state\<lparr>channel_sent := [[0x0C]]\<rparr>)"
    by (simp add: stub_eval)
  from send_byte_count [OF e] show ?thesis
    using e by (auto simp: stub_eval)
qed

subsection \<open>The inbound dispatcher\<close>

lemmas accept_eval =
  IotBleMqttTransportAcceptData_def IotBleMqttTransportAcceptData_dispatch_def
  IotBleDataTransfer_PeekReceiveBuffer_def IotBleDataTransfer_Receive_null_def
  handleIncomingConnack_def handleIncomingPuback_def handleIncomingPublish_def
  handleIncomingSuback_def handleIncomingUnsuback_def handleIncomingPingresp_def
  transportSerializeAck_def transportSerializeSuback_def transportSerializePingresp_def
  xStreamBufferSend_def configASSERT_def
  SIZE_OF_SIMPLE_ACK_def SIZE_OF_SUB_ACK_def SIZE_OF_PING_def
  MQTT_PACKET_TYPE_CONNACK_def MQTT_PACKET_TYPE_PUBLISH_def MQTT_PACKET_TYPE_PUBACK_def
  MQTT_PACKET_TYPE_PUBREC_def MQTT_PACKET_TYPE_PUBREL_def MQTT_PACKET_TYPE_PUBCOMP_def
  MQTT_PACKET_TYPE_SUBACK_def MQTT_PACKET_TYPE_UNSUBACK_def MQTT_PACKET_TYPE_PINGRESP_def

text \<open>
  C8: a PUBREC, PUBREL or PUBCOMP packet handed to the outbound dispatcher (while no
  publish is being reassembled, when the pending payload is what the call carries)
  fails with \<open>MQTTSendFailed\<close>, the call reports 0 bytes and the state is as before:
  nothing is handed to the channel. On the inbound side such a packet type fails with
  \<open>MQTTRecvFailed\<close> and the state is as before: nothing is queued, nothing is drained.
\<close>

theorem qos2_rejected:
  "(\<not> pending (publishInfo s) \<and> buf \<noteq> []
     \<and> (hd buf AND 0xF0 = CLIENT_PACKET_TYPE_PUBREC \<or> hd buf AND 0xF0 = CLIENT_PACKET_TYPE_PUBREL
        \<or> hd buf AND 0xF0 = CLIENT_PACKET_TYPE_PUBCOMP)
    \<longrightarrow> IotBleMqttTransportSend_dispatch ext s buf (hd buf AND 0xF0) = Inr (MQTTSendFailed, [], s)
      \<and> IotBleMqttTransportSend ext s buf = Inr (0, s))
   \<and> (IotBleMqtt_GetPacketType ext (channel_received s) = MQTT_PACKET_TYPE_PUBREC
       \<or> IotBleMqtt_GetPacketType ext (channel_received s) = MQTT_PACKET_TYPE_PUBREL
       \<or> IotBleMqtt_GetPacketType ext (channel_received s) = MQTT_PACKET_TYPE_PUBCOMP
    \<longrightarrow> IotBleMqttTransportAcceptData ext s = Inr (MQTTRecvFailed, s))"
proof (intro conjI impI)
  assume a: "\<not> pending (publishInfo s) \<and> buf \<noteq> []
     \<and> (hd buf AND 0xF0 = CLIENT_PACKET_TYPE_PUBREC \<or> hd buf AND 0xF0 = CLIENT_PACKET_TYPE_PUBREL
        \<or> hd buf AND 0xF0 = CLIENT_PACKET_TYPE_PUBCOMP)"
  then show d: "IotBleMqttTransportSend_dispatch ext s buf (hd buf AND 0xF0)
                 = Inr (MQTTSendFailed, [], s)"
    by (auto simp: IotBleMqttTransportSend_dispatch_def
        CLIENT_PACKET_TYPE_CONNECT_def CLIENT_PACKET_TYPE_PUBLISH_def CLIENT_PACKET_TYPE_PUBACK_def
        CLIENT_PACKET_TYPE_PUBREC_def CLIENT_PACKET_TYPE_PUBREL_def CLIENT_PACKET_TYPE_PUBCOMP_def
        CLIENT_PACKET_TYPE_SUBSCRIBE_def CLIENT_PACKET_TYPE_UNSUBSCRIBE_def
        CLIENT_PACKET_TYPE_PINGREQ_def CLIENT_PACKET_TYPE_DISCONNECT_def)
  from a have "rd buf 0 = Inr (hd buf)"
    by (simp add: rd_hd)
  with d show "IotBleMqttTransportSend ext s buf = Inr (0, s)"
    by (simp add: IotBleMqttTransportSend_def Let_def)
next
  assume "IotBleMqtt_GetPacketType ext (channel_received s) = MQTT_PACKET_TYPE_PUBREC
       \<or> IotBleMqtt_GetPacketType ext (channel_received s) = MQTT_PACKET_TYPE_PUBREL
       \<or> IotBleMqtt_GetPacketType ext (channel_received s) = MQTT_PACKET_TYPE_PUBCOMP"
  then show "IotBleMqttTransportAcceptData ext s = Inr (MQTTRecvFailed, s)"
    by (auto simp: IotBleMqttTransportAcceptData_def IotBleMqttTransportAcceptData_dispatch_def
        IotBleDataTransfer_PeekReceiveBuffer_def Let_def
        MQTT_PACKET_TYPE_CONNACK_def MQTT_PACKET_TYPE_PUBLISH_def MQTT_PACKET_TYPE_PUBACK_def
        MQTT_PACKET_TYPE_PUBREC_def MQTT_PACKET_TYPE_PUBREL_def MQTT_PACKET_TYPE_PUBCOMP_def
        MQTT_PACKET_TYPE_SUBACK_def MQTT_PACKET_TYPE_UNSUBACK_def MQTT_PACKET_TYPE_PINGRESP_def)
qed

theorem qos2_rejected_witness:
  "IotBleMqttTransportSend stub_externals idle_state [0x62, 0x02, 0x00, 0x01] = Inr (0, idle_state)
   \<and> IotBleMqttTransportAcceptData stub_externals
        (idle_state\<lparr>channel_received := [0x50, 0x02, 0x00, 0x01]\<rparr>)
       = Inr (MQTTRecvFailed, idle_state\<lparr>channel_received := [0x50, 0x02, 0x00, 0x01]\<rparr>)"
  using qos2_rejected [of idle_state "[0x62, 0x02, 0x00, 0x01]" stub_externals]
    qos2_rejected [of "idle_state\<lparr>channel_received := [0x50, 0x02, 0x00, 0x01]\<rparr>" "[]"
      stub_externals]
  by (simp add: stub_externals_def idle_state_def MQTTBLEPublishInfo_zero_def
      CLIENT_PACKET_TYPE_PUBREL_def MQTT_PACKET_TYPE_PUBREC_def)

lemma inbound_frame_push:
  "channel_received (xStreamBufferSend s bs) = channel_received s"
  "channel_sent (xStreamBufferSend s bs) = channel_sent s"
  by (simp_all add: xStreamBufferSend_def)

lemma transportSerializePublish_frame:
  "transportSerializePublish s i pid = Inr (status, s1) \<Longrightarrow> inbound_frame s status s1"
  by (auto simp: transportSerializePublish_def inbound_frame_def inbound_frame_push
      bindF_def Let_def split: if_splits sum.splits)

lemma handleIncomingConnack_frame:
  "handleIncomingConnack ext s packet b = Inr (status, s1) \<Longrightarrow> inbound_frame s status s1"
  by (auto simp: handleIncomingConnack_def inbound_frame_def inbound_frame_push
      bindF_def Let_def split: if_splits sum.splits prod.splits)

lemma handleIncomingPuback_frame:
  "handleIncomingPuback ext s packet b = Inr (status, s1) \<Longrightarrow> inbound_frame s status s1"
  by (auto simp: handleIncomingPuback_def inbound_frame_def inbound_frame_push
      bindF_def Let_def split: if_splits sum.splits prod.splits)

lemma handleIncomingPublish_frame:
  "handleIncomingPublish ext s packet b = Inr (status, s1) \<Longrightarrow> inbound_frame s status s1"
  using transportSerializePublish_frame
  by (auto simp: handleIncomingPublish_def inbound_frame_def 
      split: if_splits prod.splits)

lemma handleIncomingSuback_frame:
  "handleIncomingSuback ext s packet b = Inr (status, s1) \<Longrightarrow> inbound_frame s status s1"
  by (auto simp: handleIncomingSuback_def inbound_frame_def inbound_frame_push
      bindF_def Let_def split: if_splits sum.splits prod.splits)

lemma handleIncomingUnsuback_frame:
  "handleIncomingUnsuback ext s packet b = Inr (status, s1) \<Longrightarrow> inbound_frame s status s1"
  by (auto simp: handleIncomingUnsuback_def inbound_frame_def inbound_frame_push
      bindF_def Let_def split: if_splits sum.splits prod.splits)

lemma handleIncomingPingresp_frame:
  "handleIncomingPingresp ext s packet b = Inr (status, s1) \<Longrightarrow> inbound_frame s status s1"
  by (auto simp: handleIncomingPingresp_def inbound_frame_def inbound_frame_push
      bindF_def Let_def split: if_splits sum.splits prod.splits)

lemma replicate5: "replicate 5 x = [x, x, x, x, x]"
  by (simp add: numeral_eq_Suc)

lemma accept_dispatch_frame:
  assumes "IotBleMqttTransportAcceptData_dispatch ext s packet = Inr (status, s1)"
  shows "inbound_frame s status s1"
proof -
  have "inbound_frame s MQTTRecvFailed s" "inbound_frame s MQTTBadParameter s"
    by (simp_all add: inbound_frame_def)
  with assms show ?thesis
    using handleIncomingConnack_frame handleIncomingPuback_frame handleIncomingPublish_frame
      handleIncomingSuback_frame handleIncomingUnsuback_frame handleIncomingPingresp_frame
    by (auto simp add: IotBleMqttTransportAcceptData_dispatch_def Let_def split: if_splits)
qed

text \<open>
  C9: when \<open>IotBleMqttTransportAcceptData\<close> returns an error, the state is as before: no
  byte is drained from the channel, none is pushed into the stream buffer. When it
  succeeds, the channel has lost exactly the number of bytes the peek reported,
  whatever was pushed into the stream buffer.
\<close>

theorem accept_data_frame:
  assumes "IotBleMqttTransportAcceptData ext s = Inr (status, s')"
  shows "(status \<noteq> MQTTSuccess \<longrightarrow>
            s' = s \<and> channel_received s' = channel_received s
            \<and> xStreamBuffer s' = xStreamBuffer s)
         \<and> (status = MQTTSuccess \<longrightarrow>
              channel_received s'
                = drop (snd (IotBleDataTransfer_PeekReceiveBuffer (channel_received s)))
                    (channel_received s))"
proof -
  let ?packet = "\<lparr> ptype = IotBleMqtt_GetPacketType ext (channel_received s),
                    pRemainingData = channel_received s,
                    remainingLength = length (channel_received s) \<rparr>"
  from assms obtain s1 where
    d: "IotBleMqttTransportAcceptData_dispatch ext s ?packet = Inr (status, s1)"
    and r: "s' = (if status \<noteq> MQTTSuccess then s1
                  else s1\<lparr>channel_received :=
                            drop (length (channel_received s)) (channel_received s1)\<rparr>)"
    by (auto simp: IotBleMqttTransportAcceptData_def IotBleDataTransfer_PeekReceiveBuffer_def
        IotBleDataTransfer_Receive_null_def bindF_def Let_def split: sum.splits if_splits)
  from accept_dispatch_frame [OF d] r show ?thesis
    by (auto simp: IotBleDataTransfer_PeekReceiveBuffer_def inbound_frame_def)
qed

theorem accept_data_frame_witness:
  "IotBleMqttTransportAcceptData stub_externals
     (idle_state\<lparr>channel_received := [0x20, 0x00, 0x00]\<rparr>)
     = Inr (MQTTSuccess, idle_state\<lparr>xStreamBuffer := [0x20, 0x02, 0x00, 0x00],
                                      channel_received := []\<rparr>)
   \<and> IotBleMqttTransportAcceptData stub_externals
       (idle_state\<lparr>channel_received := [0x10, 0x00]\<rparr>)
       = Inr (MQTTBadParameter, idle_state\<lparr>channel_received := [0x10, 0x00]\<rparr>)"
proof -
  have a: "IotBleMqttTransportAcceptData stub_externals
     (idle_state\<lparr>channel_received := [0x20, 0x00, 0x00]\<rparr>)
     = Inr (MQTTSuccess, idle_state\<lparr>xStreamBuffer := [0x20, 0x02, 0x00, 0x00],
                                      channel_received := []\<rparr>)"
    by (simp add: accept_eval stub_externals_def idle_state_def replicate5)
  have b: "IotBleMqttTransportAcceptData stub_externals
       (idle_state\<lparr>channel_received := [0x10, 0x00]\<rparr>)
       = Inr (MQTTBadParameter, idle_state\<lparr>channel_received := [0x10, 0x00]\<rparr>)"
    by (simp add: accept_eval stub_externals_def idle_state_def replicate5)
  from accept_data_frame [OF a] accept_data_frame [OF b] a b show ?thesis
    by simp
qed

subsection \<open>The PUBLISH reassembly\<close>

lemma publish_flags_type: "publish_flags_byte d q r AND 0xF0 = CLIENT_PACKET_TYPE_PUBLISH"
  by (cases q; cases d; cases r) (simp_all add: publish_flags_byte_def CLIENT_PACKET_TYPE_PUBLISH_def)

lemma publish_flags_qos:
  "(convertIntToQos (drop_bit 1 ((publish_flags_byte d q r AND 0x0F) AND PUBLISH_FLAG_QOS_MASK))
      \<noteq> MQTTQoS0) = (q \<noteq> MQTTQoS0)"
  by (cases q; cases d; cases r)
    (simp_all add: publish_flags_byte_def PUBLISH_FLAG_QOS_MASK_def convertIntToQos_def)

lemma u16_roundtrip:
  "push_bit 8 (ucast (ucast (drop_bit 8 w) :: byte)) OR ucast (ucast w :: byte) = (w :: 16 word)"
  by (rule bit_word_eqI) (auto simp: bit_simps)

lemma UINT16_DECODE_at:
  "i = length pre \<Longrightarrow> UINT16_DECODE (pre @ u16_bytes w @ xs) i = Inr w"
  by (simp add: UINT16_DECODE_def u16_bytes_def rd_def nth_append u16_roundtrip)

lemma region_at:
  "i = length pre \<Longrightarrow> n = length bs \<Longrightarrow> region (ptr (pre @ bs @ xs) i) n = Inr bs"
  by (simp add: region_def ptr_def)

lemma unat_topic_length: "n < 65536 \<Longrightarrow> unat (word_of_nat n :: 16 word) = n"
  by (simp add: unat_of_nat)

lemma size_wrap: "a = x + n + SIZE_MAX1 \<Longrightarrow> n < SIZE_MAX1 \<Longrightarrow> (a - x) mod SIZE_MAX1 = n"
  by simp

lemma parsePublish_header:
  assumes tl: "length topic < 65536"
    and rl: "publish_remaining_length q topic n < 268435456"
  shows "parsePublish ext (publish_header d q r topic pid n @ rest)
           (length (publish_header d q r topic pid n @ rest)) p
         = Inr (rest = [] \<and> 0 < n,
                p\<lparr>info := (info p)
                     \<lparr>dup := ((publish_flags_byte d q r AND 0x0F) AND PUBLISH_FLAG_DUP_MASK
                                = PUBLISH_FLAG_DUP_MASK),
                      retain := ((publish_flags_byte d q r AND 0x0F) AND PUBLISH_FLAG_RETAIN_MASK
                                = PUBLISH_FLAG_RETAIN_MASK),
                      qos := convertIntToQos (drop_bit 1
                               ((publish_flags_byte d q r AND 0x0F) AND PUBLISH_FLAG_QOS_MASK)),
                      topicNameLength := word_of_nat (length topic),
                      pTopicName := (if IotMqtt_MallocMessage ext (length topic)
                                     then Some topic else pTopicName (info p)),
                      payloadLength := n,
                      pPayload := (if rest = [] then pPayload (info p) else Some rest)\<rparr>,
                  packetIdentifier := (if q = MQTTQoS0 then packetIdentifier p else pid)\<rparr>)"
proof -
  define b0 where "b0 = publish_flags_byte d q r"
  define rlen where "rlen = publish_remaining_length q topic n"
  define enc where "enc = encodeRemainingLength rlen"
  define el where "el = length enc"
  define tlw where "tlw = (word_of_nat (length topic) :: 16 word)"
  define pidb where "pidb = (if q = MQTTQoS0 then [] else u16_bytes pid)"
  define buf where "buf = publish_header d q r topic pid n @ rest"
  have buf: "buf = b0 # enc @ u16_bytes tlw @ topic @ pidb @ rest"
    by (simp add: buf_def publish_header_def b0_def enc_def rlen_def tlw_def pidb_def)
  have len: "length buf = 1 + el + 2 + length topic + length pidb + length rest"
    by (simp add: buf el_def u16_bytes_def)
  have f0: "rd buf 0 = Inr b0"
    by (simp add: buf rd_def)
  have f1: "getRemainingLength buf 1 = Inr (rlen, el)"
    using getRemainingLength_enc [of rlen "[b0]" "u16_bytes tlw @ topic @ pidb @ rest"] rl
    by (simp add: buf enc_def el_def rlen_def)
  have f2: "UINT16_DECODE buf i = Inr tlw" if "i = el + 1" for i
    using UINT16_DECODE_at [of i "b0 # enc" tlw "topic @ pidb @ rest"] that
    by (simp add: buf el_def)
  have f3: "region (Some (drop i buf)) k = Inr topic" if "i = el + 3" "k = length topic" for i k
    using region_at [of i "b0 # enc @ u16_bytes tlw" k topic "pidb @ rest"] that
    by (simp add: buf el_def u16_bytes_def ptr_def)
  have f5: "drop i buf = rest" if "i = el + 3 + length topic + length pidb" for i
  proof -
    have "i = length (b0 # enc @ u16_bytes tlw @ topic @ pidb)"
      using that by (simp add: el_def u16_bytes_def)
    moreover have "buf = (b0 # enc @ u16_bytes tlw @ topic @ pidb) @ rest"
      by (simp add: buf)
    ultimately show ?thesis
      by (simp only: drop_append diff_self_eq_0 drop_all [OF order_refl] drop_0 append_Nil)
  qed
  have f4: "UINT16_DECODE buf i = Inr pid" if "i = el + 3 + length topic" "q \<noteq> MQTTQoS0" for i
    using UINT16_DECODE_at [of i "b0 # enc @ u16_bytes tlw @ topic" pid rest] that
    by (simp add: buf el_def u16_bytes_def pidb_def)
  have ut: "unat tlw = length topic"
    using tl by (simp add: tlw_def unat_topic_length)
  have nlt: "n < SIZE_MAX1"
    using rl by (simp add: publish_remaining_length_def SIZE_MAX1_def)
  note w = size_wrap [OF _ nlt]
  have ninv: "rlen \<noteq> REMAINING_LENGTH_INVALID"
    using rl by (simp add: rlen_def REMAINING_LENGTH_INVALID_def)
  have rlen: "rlen = 2 + length topic + length pidb + n"
    by (simp add: rlen_def publish_remaining_length_def pidb_def u16_bytes_def)
  have ty: "b0 AND 0xF0 = CLIENT_PACKET_TYPE_PUBLISH"
    by (simp add: b0_def publish_flags_type)
  have qs: "(convertIntToQos (drop_bit 1 ((b0 AND 0x0F) AND PUBLISH_FLAG_QOS_MASK))
      \<noteq> MQTTQoS0) = (q \<noteq> MQTTQoS0)"
    unfolding b0_def by (rule publish_flags_qos)
  have "parsePublish ext buf (length buf) p
         = Inr (rest = [] \<and> 0 < n,
                p\<lparr>info := (info p)
                     \<lparr>dup := ((b0 AND 0x0F) AND PUBLISH_FLAG_DUP_MASK = PUBLISH_FLAG_DUP_MASK),
                      retain := ((b0 AND 0x0F) AND PUBLISH_FLAG_RETAIN_MASK
                                = PUBLISH_FLAG_RETAIN_MASK),
                      qos := convertIntToQos (drop_bit 1 ((b0 AND 0x0F) AND PUBLISH_FLAG_QOS_MASK)),
                      topicNameLength := tlw,
                      pTopicName := (if IotMqtt_MallocMessage ext (length topic)
                                     then Some topic else pTopicName (info p)),
                      payloadLength := n,
                      pPayload := (if rest = [] then pPayload (info p) else Some rest)\<rparr>,
                  packetIdentifier := (if q = MQTTQoS0 then packetIdentifier p else pid)\<rparr>)"
  proof (cases "q = MQTTQoS0")
    case True
    then have pz: "pidb = []" by (simp add: pidb_def)
    show ?thesis
      using f0 f1 ty ninv qs True
      by (simp add: parsePublish_def configASSERT_def Let_def f2 f3 ut len pz rlen w ptr_def f5 nlt)
  next
    case False
    then have pz: "length pidb = 2" by (simp add: pidb_def u16_bytes_def)
    show ?thesis
      using f0 f1 ty ninv qs False
      by (simp add: parsePublish_def configASSERT_def Let_def f2 f3 f4 ut len pz rlen w ptr_def f5 nlt)
  qed
  then show ?thesis
    by (simp add: buf_def b0_def tlw_def)
qed

lemma publish_header_nonempty: "publish_header d q r topic pid n \<noteq> []"
  by (simp add: publish_header_def)

lemma publish_header_hd: "hd (publish_header d q r topic pid n) = publish_flags_byte d q r"
  by (simp add: publish_header_def)

lemma Send_publish:
  assumes "\<not> pending (publishInfo s)" and "buf \<noteq> []"
    and "hd buf AND 0xF0 = CLIENT_PACKET_TYPE_PUBLISH"
    and "handleOutgoingPublish_info ext (publishInfo s) buf (length buf) = Inr p1"
  shows "IotBleMqttTransportSend ext s buf =
     (if pending p1 then Inr (int32_cast (length buf), s\<lparr>publishInfo := p1\<rparr>)
      else
        (let (status, frame) = IotBleMqtt_SerializePublish ext (info p1) (packetIdentifier p1);
             s1 = s\<lparr>publishInfo := MQTTBLEPublishInfo_zero\<rparr>
         in if status = MQTTSuccess \<and> frame \<noteq> [] then
              Inr (if IotBleDataTransfer_Send ext frame \<noteq> length frame then 0
                   else int32_cast (length buf),
                   s1\<lparr>channel_sent := channel_sent s1 @ [frame]\<rparr>)
            else Inr (if status = MQTTSuccess then int32_cast (length buf) else 0, s1)))"
  using assms
  by (auto simp: IotBleMqttTransportSend_def IotBleMqttTransportSend_dispatch_def rd_hd
      handleOutgoingPublish_def Let_def CLIENT_PACKET_TYPE_PUBLISH_def
      CLIENT_PACKET_TYPE_CONNECT_def split: prod.splits)

lemma Send_pending:
  assumes "pending (publishInfo s)" and "buf \<noteq> []"
    and "handleOutgoingPublish_info ext (publishInfo s) buf (length buf) = Inr p1"
    and "\<not> pending p1"
  shows "IotBleMqttTransportSend ext s buf =
        (let (status, frame) = IotBleMqtt_SerializePublish ext (info p1) (packetIdentifier p1);
             s1 = s\<lparr>publishInfo := MQTTBLEPublishInfo_zero\<rparr>
         in if status = MQTTSuccess \<and> frame \<noteq> [] then
              Inr (if IotBleDataTransfer_Send ext frame \<noteq> length frame then 0
                   else int32_cast (length buf),
                   s1\<lparr>channel_sent := channel_sent s1 @ [frame]\<rparr>)
            else Inr (if status = MQTTSuccess then int32_cast (length buf) else 0, s1))"
  using assms
  by (auto simp: IotBleMqttTransportSend_def IotBleMqttTransportSend_dispatch_def rd_hd
      handleOutgoingPublish_def Let_def split: prod.splits)

text \<open>
  C2: a well-formed PUBLISH packet with a non-empty payload, split at the payload
  boundary. The call with the header chunk (fixed header, remaining length, topic and,
  for QoS above 0, packet identifier) leaves the publish pending and hands nothing to
  the channel; the call with the payload bytes then completes the very record, in all
  its fields, that a single call with the whole packet decodes. Both ways end in the
  same state: the same frame from the same record has been handed to the channel. (With
  an empty payload the header chunk is the whole packet.)
\<close>

theorem split_publish_equivalent:
  assumes tl: "length topic < 65536"
    and rl: "publish_remaining_length q topic (length payload) < 268435456"
    and ne: "payload \<noteq> []"
    and np: "\<not> pending (publishInfo s)"
  shows "\<exists>decoded part s1.
           handleOutgoingPublish_info ext (publishInfo s)
               (publish_header d q r topic pid (length payload) @ payload)
               (length (publish_header d q r topic pid (length payload) @ payload))
             = Inr decoded
           \<and> \<not> pending decoded
           \<and> pPayload (info decoded) = Some payload
           \<and> payloadLength (info decoded) = length payload
           \<and> handleOutgoingPublish_info ext (publishInfo s)
                 (publish_header d q r topic pid (length payload))
                 (length (publish_header d q r topic pid (length payload)))
               = Inr part
           \<and> pending part
           \<and> handleOutgoingPublish_info ext part payload (length payload) = Inr decoded
           \<and> IotBleMqttTransportSend ext s (publish_header d q r topic pid (length payload))
               = Inr (int32_cast (length (publish_header d q r topic pid (length payload))), s1)
           \<and> publishInfo s1 = part \<and> channel_sent s1 = channel_sent s
           \<and> (\<exists>n n' s2.
                 IotBleMqttTransportSend ext s1 payload = Inr (n, s2)
                 \<and> IotBleMqttTransportSend ext s
                       (publish_header d q r topic pid (length payload) @ payload)
                     = Inr (n', s2))"
proof -
  let ?hdr = "publish_header d q r topic pid (length payload)"
  let ?p = "publishInfo s"
  from ne have n0: "0 < length payload" by simp
  obtain decoded where
    w: "parsePublish ext (?hdr @ payload) (length (?hdr @ payload)) ?p = Inr (False, decoded)"
    and dp: "pPayload (info decoded) = Some payload"
    and dl: "payloadLength (info decoded) = length payload"
    and h0: "parsePublish ext ?hdr (length ?hdr) ?p
          = Inr (True, decoded\<lparr>info := (info decoded)\<lparr>pPayload := pPayload (info ?p)\<rparr>\<rparr>)"
    using parsePublish_header [OF tl rl, of ext d r pid payload ?p]
      parsePublish_header [OF tl rl, of ext d r pid "[]" ?p] ne n0
    by simp
  define part where
    "part = decoded\<lparr>info := (info decoded)\<lparr>pPayload := pPayload (info ?p)\<rparr>, pending := True\<rparr>"
  from w np have pd: "pending decoded = False"
    by (auto simp: parsePublish_def bindF_def Let_def split: sum.splits if_splits prod.splits)
  have e1: "handleOutgoingPublish_info ext ?p (?hdr @ payload) (length (?hdr @ payload))
             = Inr decoded"
    using w np pd by (simp add: handleOutgoingPublish_info_def)
  have e2: "handleOutgoingPublish_info ext ?p ?hdr (length ?hdr) = Inr part"
    using h0 np by (simp add: handleOutgoingPublish_info_def part_def)
  have pp: "pending part"
    by (simp add: part_def)
  have e3: "handleOutgoingPublish_info ext part payload (length payload) = Inr decoded"
    using dp dl pd
    by (simp add: handleOutgoingPublish_info_def part_def configASSERT_def ptr_def)
  define s1 where "s1 = s\<lparr>publishInfo := part\<rparr>"
  have ty: "hd ?hdr AND 0xF0 = CLIENT_PACKET_TYPE_PUBLISH"
    by (simp add: publish_header_hd publish_flags_type)
  have t1: "IotBleMqttTransportSend ext s ?hdr = Inr (int32_cast (length ?hdr), s1)"
    using Send_publish [OF np publish_header_nonempty ty e2] pp
    by (simp add: s1_def)
  have ty2: "hd (?hdr @ payload) AND 0xF0 = CLIENT_PACKET_TYPE_PUBLISH"
    using ty publish_header_nonempty [of d q r topic pid "length payload"] by simp
  have t3: "\<exists>n' s2. IotBleMqttTransportSend ext s (?hdr @ payload) = Inr (n', s2)
             \<and> (\<exists>n. IotBleMqttTransportSend ext s1 payload = Inr (n, s2))"
    using Send_publish [OF np _ ty2 e1] pd
      Send_pending [of s1 payload ext decoded] pp e3 ne
    by (auto simp: s1_def Let_def split: prod.splits)
  show ?thesis
    using e1 pd dp dl e2 pp e3 t1 t3 by (auto simp: s1_def)
qed

theorem split_publish_equivalent_witness:
  "publish_header False MQTTQoS1 False [0x61] 7 2 = [0x32, 0x07, 0x00, 0x01, 0x61, 0x00, 0x07]
   \<and> IotBleMqttTransportSend stub_externals idle_state [0x32, 0x07, 0x00, 0x01, 0x61, 0x00, 0x07]
       = Inr (7, idle_state\<lparr>publishInfo :=
                   \<lparr> info = \<lparr> qos = MQTTQoS1, retain = False, dup = False,
                              pTopicName = Some [0x61], topicNameLength = 1,
                              pPayload = None, payloadLength = 2 \<rparr>,
                     packetIdentifier = 7, pending = True \<rparr>\<rparr>)
   \<and> IotBleMqttTransportSend stub_externals
         (idle_state\<lparr>publishInfo :=
                   \<lparr> info = \<lparr> qos = MQTTQoS1, retain = False, dup = False,
                              pTopicName = Some [0x61], topicNameLength = 1,
                              pPayload = None, payloadLength = 2 \<rparr>,
                     packetIdentifier = 7, pending = True \<rparr>\<rparr>)
         [0x68, 0x69]
       = Inr (2, idle_state\<lparr>channel_sent := [[0x03, 0x68, 0x69]]\<rparr>)
   \<and> IotBleMqttTransportSend stub_externals idle_state
         [0x32, 0x07, 0x00, 0x01, 0x61, 0x00, 0x07, 0x68, 0x69]
       = Inr (9, idle_state\<lparr>channel_sent := [[0x03, 0x68, 0x69]]\<rparr>)"
proof -
  have h: "publish_header False MQTTQoS1 False [0x61] 7 2
           = [0x32, 0x07, 0x00, 0x01, 0x61, 0x00, 0x07]"
    by (simp add: publish_header_def publish_flags_byte_def publish_remaining_length_def
        u16_bytes_def enc_small)
  have np: "\<not> pending (publishInfo idle_state)"
    by (simp add: idle_state_def MQTTBLEPublishInfo_zero_def)
  have rl: "publish_remaining_length MQTTQoS1 [0x61] (length [0x68, 0x69 :: byte]) < 268435456"
    by (simp add: publish_remaining_length_def)
  have "length [0x68, 0x69 :: byte] = 2"
    by simp
  then have h': "publish_header False MQTTQoS1 False [0x61] 7 (length [0x68, 0x69 :: byte])
           = [0x32, 0x07, 0x00, 0x01, 0x61, 0x00, 0x07]"
    by (simp only: h)
  have tl: "length [0x61 :: byte] < 65536" and ne: "[0x68, 0x69 :: byte] \<noteq> []"
    by simp_all
  from split_publish_equivalent [where topic = "[0x61]" and q = MQTTQoS1
      and payload = "[0x68, 0x69]" and s = idle_state and ext = stub_externals
      and d = False and r = False and pid = 7, OF tl rl ne np, unfolded h']
  obtain s1 n n' s2 where
    a: "IotBleMqttTransportSend stub_externals idle_state
          [0x32, 0x07, 0x00, 0x01, 0x61, 0x00, 0x07] = Inr (7, s1)"
    and b: "IotBleMqttTransportSend stub_externals s1 [0x68, 0x69] = Inr (n, s2)"
    and c: "IotBleMqttTransportSend stub_externals idle_state
          [0x32, 0x07, 0x00, 0x01, 0x61, 0x00, 0x07, 0x68, 0x69] = Inr (n', s2)"
    by (auto simp: h int32_cast_def)
  have a': "IotBleMqttTransportSend stub_externals idle_state
          [0x32, 0x07, 0x00, 0x01, 0x61, 0x00, 0x07]
       = Inr (7, idle_state\<lparr>publishInfo :=
                   \<lparr> info = \<lparr> qos = MQTTQoS1, retain = False, dup = False,
                              pTopicName = Some [0x61], topicNameLength = 1,
                              pPayload = None, payloadLength = 2 \<rparr>,
                     packetIdentifier = 7, pending = True \<rparr>\<rparr>)"
    by (simp add: stub_eval)
  have c': "IotBleMqttTransportSend stub_externals idle_state
         [0x32, 0x07, 0x00, 0x01, 0x61, 0x00, 0x07, 0x68, 0x69]
       = Inr (9, idle_state\<lparr>channel_sent := [[0x03, 0x68, 0x69]]\<rparr>)"
    by (simp add: stub_eval)
  have b': "IotBleMqttTransportSend stub_externals s1 [0x68, 0x69]
       = Inr (2, idle_state\<lparr>channel_sent := [[0x03, 0x68, 0x69]]\<rparr>)"
  proof -
    from c c' have "s2 = idle_state\<lparr>channel_sent := [[0x03, 0x68, 0x69]]\<rparr>"
      by simp
    moreover from a a' have s1: "s1 = idle_state\<lparr>publishInfo :=
                   \<lparr> info = \<lparr> qos = MQTTQoS1, retain = False, dup = False,
                              pTopicName = Some [0x61], topicNameLength = 1,
                              pPayload = None, payloadLength = 2 \<rparr>,
                     packetIdentifier = 7, pending = True \<rparr>\<rparr>"
      by simp
    moreover have "n = 2"
      using b unfolding s1 by (simp add: stub_eval)
    ultimately show ?thesis
      using b by simp
  qed
  from a a' have "s1 = idle_state\<lparr>publishInfo :=
                   \<lparr> info = \<lparr> qos = MQTTQoS1, retain = False, dup = False,
                              pTopicName = Some [0x61], topicNameLength = 1,
                              pPayload = None, payloadLength = 2 \<rparr>,
                     packetIdentifier = 7, pending = True \<rparr>\<rparr>"
    by simp
  with h a' b' c' show ?thesis
    by simp
qed

subsection \<open>The SUBSCRIBE and UNSUBSCRIBE parser\<close>

lemma u16_roundtrip_add:
  "push_bit 8 (ucast (ucast (drop_bit 8 w) :: byte)) + ucast (ucast w :: byte) = (w :: 16 word)"
proof -
  have "push_bit 8 (ucast (ucast (drop_bit 8 w) :: byte)) + (ucast (ucast w :: byte) :: 16 word)
        = push_bit 8 (ucast (ucast (drop_bit 8 w) :: byte)) OR ucast (ucast w :: byte)"
    by (rule disjunctive_add_eq_or) (auto simp: bit_eq_iff bit_simps)
  then show ?thesis
    by (simp only: u16_roundtrip)
qed

lemma getIntFromTwoBytes_at:
  "i = length pre \<Longrightarrow> getIntFromTwoBytes (pre @ u16_bytes w @ xs) i = Inr w"
  by (simp add: getIntFromTwoBytes_def u16_bytes_def rd_def nth_append u16_roundtrip_add)

declare parseSubscribe_fill.simps [simp del]

lemma getIntFromTwoBytes_drop:
  assumes "drop i buf = u16_bytes w @ xs"
  shows "getIntFromTwoBytes buf i = Inr w"
proof -
  from assms have "i < length buf"
    by (cases "i < length buf") (simp_all add: u16_bytes_def)
  then have "length (take i buf) = i" by simp
  moreover from assms have "buf = take i buf @ u16_bytes w @ xs"
    by (metis append_take_drop_id)
  ultimately show ?thesis
    using getIntFromTwoBytes_at [of i "take i buf" w xs] by simp
qed

lemma rd_drop:
  assumes "drop i buf = x # xs"
  shows "rd buf i = Inr x"
proof -
  from assms have "i < length buf"
    by (cases "i < length buf") simp_all
  with assms show ?thesis
    by (simp add: rd_def Cons_nth_drop_Suc [symmetric])
qed

lemma entries_size_Nil [simp]: "entries_size sub [] = 0"
  by (simp add: entries_size_def)

lemma entries_size_Cons [simp]:
  "entries_size sub (f # fs) = length (subscribe_entry sub f) + entries_size sub fs"
  by (simp add: entries_size_def)

lemma entries_size_append [simp]:
  "entries_size sub (xs @ ys) = entries_size sub xs + entries_size sub ys"
  by (simp add: entries_size_def)

lemma subscribe_entry_length:
  "length (subscribe_entry sub f) = 2 + length (fst f) + (if sub then 1 else 0)"
  by (simp add: subscribe_entry_def u16_bytes_def)

lemma entries_size_take_le:
  assumes "k < length fs"
  shows "entries_size sub (take k fs) \<le> entries_size sub (butlast fs)"
proof -
  from assms have "take k fs = take k (butlast fs)"
    by (simp add: take_butlast)
  moreover have "entries_size sub (take k (butlast fs)) + entries_size sub (drop k (butlast fs))
                 = entries_size sub (butlast fs)"
    by (simp only: entries_size_append [symmetric] append_take_drop_id)
  ultimately show ?thesis
    by simp
qed

lemma loop_condition: "(uint (b :: 16 word) < uint (a :: byte)) = (unat b < unat a)"
  by (simp only: uint_nat of_nat_less_iff)

lemma entries_size_length: "2 * length fs \<le> entries_size sub fs"
  by (induction fs) (simp_all add: subscribe_entry_length)

lemma unat16_add_of_nat:
  assumes "unat (t :: 16 word) + e < 65536"
  shows "unat (t + word_of_nat e) = unat t + e"
proof -
  have eq: "t + word_of_nat e = (word_of_nat (unat t + e) :: 16 word)"
    by simp
  have "unat (word_of_nat (unat t + e) :: 16 word) = (unat t + e) mod 2 ^ LENGTH(16)"
    by (rule unat_of_nat)
  also have "\<dots> = unat t + e"
    using assms by simp
  finally show ?thesis
    by (simp only: eq)
qed

lemma calculateNumSubs_loop_entries:
  assumes "drop (off + unat tot) buf = concat (map (subscribe_entry sub) fs) @ rest"
    and "\<forall>k<length fs. unat tot + entries_size sub (take k fs) < unat rl"
    and "unat rl \<le> unat tot + entries_size sub fs"
    and "unat tot + entries_size sub fs < 65536"
  shows "calculateNumSubs_loop buf off rl sub numSubs tot
         = Some (Inr (numSubs + word_of_nat (length fs)))"
  using assms
proof (induction fs arbitrary: numSubs tot)
  case Nil
  then show ?case
    by (subst calculateNumSubs_loop.simps) (simp add: loop_condition)
next
  case (Cons f fs)
  let ?e = "length (subscribe_entry sub f)"
  let ?t' = "tot + word_of_nat ?e"
  from Cons.prems(2) have lt: "unat tot < unat rl"
    by fastforce
  from Cons.prems(1) have "drop (off + unat tot) buf
      = u16_bytes (word_of_nat (length (fst f)))
        @ (fst f @ (if sub then [snd f] else []) @ concat (map (subscribe_entry sub) fs) @ rest)"
    by (simp add: subscribe_entry_def [of sub f])
  then have g: "getIntFromTwoBytes buf (off + unat tot) = Inr (word_of_nat (length (fst f)))"
    by (rule getIntFromTwoBytes_drop)
  from Cons.prems(4) have u: "unat ?t' = unat tot + ?e"
    by (intro unat16_add_of_nat) simp
  have nt: "(if sub then tot + (word_of_nat (length (fst f)) + 2) + 1
             else tot + (word_of_nat (length (fst f)) + 2)) = ?t'"
    by (simp add: subscribe_entry_length)
  have "drop (off + unat ?t') buf = drop ?e (drop (off + unat tot) buf)"
    by (simp only: u drop_drop ac_simps)
  with Cons.prems(1) have d: "drop (off + unat ?t') buf
      = concat (map (subscribe_entry sub) fs) @ rest"
    by simp
  have a2: "\<forall>k<length fs. unat ?t' + entries_size sub (take k fs) < unat rl"
  proof (intro allI impI)
    fix k assume "k < length fs"
    then have "Suc k < length (f # fs)" by simp
    with Cons.prems(2) have "unat tot + entries_size sub (take (Suc k) (f # fs)) < unat rl"
      by blast
    then show "unat ?t' + entries_size sub (take k fs) < unat rl"
      by (simp add: u)
  qed
  from Cons.prems(3) have a3: "unat rl \<le> unat ?t' + entries_size sub fs"
    by (simp add: u)
  from Cons.prems(4) have a4: "unat ?t' + entries_size sub fs < 65536"
    by (simp add: u)
  have "calculateNumSubs_loop buf off rl sub (numSubs + 1) ?t'
        = Some (Inr (numSubs + 1 + word_of_nat (length fs)))"
    by (rule Cons.IH [OF d a2 a3 a4])
  with lt g nt show ?case
    by (subst calculateNumSubs_loop.simps) (simp add: loop_condition del: of_nat_add)
qed

lemma parseSubscribe_fill_entries:
  assumes "drop (unat bi) buf = concat (map (subscribe_entry sub) fs) @ rest"
    and "unat bi + entries_size sub fs < 65536"
    and "idx + length fs = count" and "count \<le> length subs"
  shows "\<exists>subs'. parseSubscribe_fill buf sub count idx bi subs = Inr subs'
          \<and> length subs' = length subs"
  using assms
proof (induction fs arbitrary: idx bi subs)
  case Nil
  then show ?case
    by (subst parseSubscribe_fill.simps) simp
next
  case (Cons f fs)
  let ?l = "length (fst f)"
  let ?b1 = "bi + (word_of_nat ?l + 2)"
  let ?e = "length (subscribe_entry sub f)"
  let ?b' = "bi + word_of_nat ?e"
  from Cons.prems have i1: "idx < count" and i2: "idx < length subs"
    by simp_all
  from Cons.prems(1) have hd: "drop (unat bi) buf
      = u16_bytes (word_of_nat ?l)
        @ (fst f @ (if sub then [snd f] else []) @ concat (map (subscribe_entry sub) fs) @ rest)"
    by (simp add: subscribe_entry_def [of sub f])
  then have g: "getIntFromTwoBytes buf (unat bi) = Inr (word_of_nat ?l)"
    by (rule getIntFromTwoBytes_drop)
  from Cons.prems(2) have u: "unat ?b' = unat bi + ?e"
    by (intro unat16_add_of_nat) simp
  have "?b1 = bi + word_of_nat (?l + 2)"
    by simp
  moreover from Cons.prems(2) have "unat bi + (?l + 2) < 65536"
    by (simp add: subscribe_entry_length)
  ultimately have u1: "unat ?b1 = unat bi + (?l + 2)"
    by (simp only: unat16_add_of_nat)
  have "drop (unat ?b') buf = drop ?e (drop (unat bi) buf)"
    by (simp only: u drop_drop ac_simps)
  with Cons.prems(1) have d: "drop (unat ?b') buf = concat (map (subscribe_entry sub) fs) @ rest"
    by simp
  from Cons.prems(2) have a2: "unat ?b' + entries_size sub fs < 65536"
    by (simp add: u)
  from Cons.prems(3) have a3: "idx + 1 + length fs = count"
    by simp
  have ih: "\<exists>subs'. parseSubscribe_fill buf sub count (idx + 1) ?b' subs1 = Inr subs'
      \<and> length subs' = length subs" if "length subs1 = length subs" for subs1
    using Cons.IH [OF d a2 a3, of subs1] Cons.prems(4) that by simp
  show ?case
  proof (cases sub)
    case True
    let ?subs1 = "subs[idx := (subs ! idx)
                     \<lparr>topicFilterLength := word_of_nat ?l,
                      pTopicFilter := ptr buf (unat bi + 2),
                      subQos := convertIntToQos (snd f AND 0x03)\<rparr>]"
    have "drop (unat ?b1) buf = drop (?l + 2) (drop (unat bi) buf)"
      unfolding u1 drop_drop by (simp add: ac_simps)
    with hd True have "drop (unat ?b1) buf
        = snd f # concat (map (subscribe_entry sub) fs) @ rest"
      by (simp add: u16_bytes_def)
    then have q: "rd buf (unat ?b1) = Inr (snd f)"
      by (rule rd_drop)
    have b: "?b1 + 1 = ?b'"
      using True by (simp add: subscribe_entry_length)
    have step: "parseSubscribe_fill buf sub count idx bi subs
                = parseSubscribe_fill buf sub count (idx + 1) (?b1 + 1) ?subs1"
      using True i1 i2 g q
      by (subst parseSubscribe_fill.simps) (simp add: Let_def del: of_nat_add)
    from ih [of ?subs1] obtain subs' where
      "parseSubscribe_fill buf sub count (idx + 1) ?b' ?subs1 = Inr subs'"
      "length subs' = length subs"
      by auto
    then show ?thesis
      unfolding step b by blast
  next
    case False
    let ?subs1 = "subs[idx := (subs ! idx)
                     \<lparr>topicFilterLength := word_of_nat ?l,
                      pTopicFilter := ptr buf (unat bi + 2)\<rparr>]"
    have b: "?b1 = ?b'"
      using False by (simp add: subscribe_entry_length)
    have step: "parseSubscribe_fill buf sub count idx bi subs
                = parseSubscribe_fill buf sub count (idx + 1) ?b1 ?subs1"
      using False i1 i2 g
      by (subst parseSubscribe_fill.simps) (simp add: Let_def del: of_nat_add)
    from ih [of ?subs1] obtain subs' where
      "parseSubscribe_fill buf sub count (idx + 1) ?b' ?subs1 = Inr subs'"
      "length subs' = length subs"
      by auto
    then show ?thesis
      unfolding step b by blast
  qed
qed

lemma parseSubscribe_status:
  assumes "parseSubscribe subs buf sub = Inr (status, count, pid, subs')"
  shows "(status = MQTTBadParameter \<and> count = 0) \<or> (status = MQTTSuccess \<and> 0 < count)"
  using assms
  by (auto simp: parseSubscribe_def bindF_def Let_def split: sum.splits if_splits)

lemma rl_byte: 
  assumes "2 \<le> rl" and "rl < 256"
  shows "unat ((word_of_nat rl :: byte) - 2) = rl - 2"
proof -
  from assms(1) have "(word_of_nat rl :: byte) - 2 = word_of_nat (rl - 2)"
    by (simp add: of_nat_diff)
  moreover have "unat (word_of_nat (rl - 2) :: byte) = (rl - 2) mod 2 ^ LENGTH(8)"
    by (rule unat_of_nat)
  moreover from assms(2) have "(rl - 2) mod 2 ^ LENGTH(8) = rl - 2"
    by simp
  ultimately show ?thesis
    by (simp only:)
qed

lemma unat16_of_nat: "n < 65536 \<Longrightarrow> unat (word_of_nat n :: 16 word) = n"
  by (simp add: unat_of_nat)

lemma parseSubscribe_no_filter:
  "parseSubscribe subs (subscribe_packet sub 2 pid [] @ rest) sub
   = Inr (MQTTBadParameter, 0, pid, subs)"
proof -
  let ?buf = "subscribe_packet sub 2 pid [] @ rest"
  have b: "?buf = [if sub then 0x82 else 0xA2, 2] @ u16_bytes pid @ rest"
    by (simp add: subscribe_packet_def)
  have "getIntFromTwoBytes ?buf 2 = Inr pid"
    unfolding b by (rule getIntFromTwoBytes_at) simp
  moreover have "rd ?buf 1 = Inr 2"
    by (simp add: b rd_def)
  moreover have "calculateNumSubs ?buf 4 0 sub = Inr 0"
    by (simp add: calculateNumSubs_def calculateNumSubs_loop.simps)
  ultimately show ?thesis
    by (simp add: parseSubscribe_def)
qed

lemma parseSubscribe_entries:
  assumes ne: "fs \<noteq> []" and cap: "length fs \<le> length subs"
    and lo: "2 + entries_size sub (butlast fs) < rl"
    and hi: "rl \<le> 2 + entries_size sub fs"
    and rl: "rl < 128"
    and fit: "4 + entries_size sub fs < 65536"
  shows "\<exists>subs'. parseSubscribe subs (subscribe_packet sub rl pid fs @ rest) sub
                 = Inr (MQTTSuccess, length fs, pid, subs')"
proof -
  let ?buf = "subscribe_packet sub rl pid fs @ rest"
  let ?ents = "concat (map (subscribe_entry sub) fs)"
  let ?rem = "(word_of_nat rl :: byte) - 2"
  have b: "?buf = [if sub then 0x82 else 0xA2, word_of_nat rl] @ u16_bytes pid @ (?ents @ rest)"
    by (simp add: subscribe_packet_def)
  have g: "getIntFromTwoBytes ?buf 2 = Inr pid"
    unfolding b by (rule getIntFromTwoBytes_at) simp
  have r: "rd ?buf 1 = Inr (word_of_nat rl)"
    by (simp add: b rd_def)
  have d: "drop 4 ?buf = ?ents @ rest"
    by (simp add: b u16_bytes_def)
  from lo rl have u: "unat ?rem = rl - 2"
    by (intro rl_byte) simp_all
  have p1: "drop (4 + unat (0 :: 16 word)) ?buf = ?ents @ rest"
    using d by simp
  have p2: "\<forall>k<length fs. unat (0 :: 16 word) + entries_size sub (take k fs) < unat ?rem"
  proof (intro allI impI)
    fix k assume "k < length fs"
    then have "entries_size sub (take k fs) \<le> entries_size sub (butlast fs)"
      by (rule entries_size_take_le)
    with lo show "unat (0 :: 16 word) + entries_size sub (take k fs) < unat ?rem"
      by (simp add: u)
  qed
  from hi lo have p3: "unat ?rem \<le> unat (0 :: 16 word) + entries_size sub fs"
    by (simp add: u)
  from fit have p4: "unat (0 :: 16 word) + entries_size sub fs < 65536"
    by simp
  have "calculateNumSubs_loop ?buf 4 ?rem sub 0 0 = Some (Inr (0 + word_of_nat (length fs)))"
    by (rule calculateNumSubs_loop_entries [OF p1 p2 p3 p4])
  then have c: "calculateNumSubs ?buf 4 ?rem sub = Inr (word_of_nat (length fs))"
    by (simp add: calculateNumSubs_def)
  have "2 * length fs \<le> entries_size sub fs"
    by (rule entries_size_length)
  with fit have "length fs < 65536"
    by simp
  then have n: "unat (word_of_nat (length fs) :: 16 word) = length fs"
    by (rule unat16_of_nat)
  have q1: "drop (unat (4 :: 16 word)) ?buf = ?ents @ rest"
    using d by simp
  from fit have q2: "unat (4 :: 16 word) + entries_size sub fs < 65536"
    by simp
  have q3: "0 + length fs = length fs"
    by simp
  from parseSubscribe_fill_entries [OF q1 q2 q3 cap] obtain subs' where
    f: "parseSubscribe_fill ?buf sub (length fs) 0 4 subs = Inr subs'"
    by blast
  from ne have "length fs \<noteq> 0"
    by simp
  with g r c n f have "parseSubscribe subs ?buf sub = Inr (MQTTSuccess, length fs, pid, subs')"
    by (simp add: parseSubscribe_def Let_def)
  then show ?thesis
    by blast
qed

text \<open>
  C4, as amended: whenever \<open>parseSubscribe\<close> returns, it returns
  \<open>MQTTBadParameter\<close> when the filter count is 0 and \<open>MQTTSuccess\<close> otherwise; a
  packet without filters is rejected with count 0; and for a packet with filters whose
  declared remaining length is reached or passed by the last filter, and by no filter
  before it, the count is the number of filters and the packet is accepted. So the
  count of a packet whose filters exhaust the declared length exactly is the number of
  its filters, and an overrun of the declared length is not an error.
\<close>

theorem subscribe_count:
  "(parseSubscribe subs buf sub = Inr (status, count, pid', subs1) \<longrightarrow>
      (status = MQTTBadParameter \<and> count = 0) \<or> (status = MQTTSuccess \<and> 0 < count))
   \<and> parseSubscribe subs (subscribe_packet sub 2 pid [] @ rest) sub
       = Inr (MQTTBadParameter, 0, pid, subs)
   \<and> (fs \<noteq> [] \<and> length fs \<le> length subs \<and> rl < 128 \<and> 4 + entries_size sub fs < 65536
        \<and> 2 + entries_size sub (butlast fs) < rl \<and> rl \<le> 2 + entries_size sub fs \<longrightarrow>
        (\<exists>subs'. parseSubscribe subs (subscribe_packet sub rl pid fs @ rest) sub
                  = Inr (MQTTSuccess, length fs, pid, subs')))"
  using parseSubscribe_status [of subs buf sub status count pid' subs1]
    parseSubscribe_no_filter [of subs sub pid rest]
    parseSubscribe_entries [of fs subs sub rl pid rest]
  by blast

text \<open>
  C4 as stated fails: a SUBSCRIBE packet that declares a remaining length of 5, so 3
  bytes of filters, and carries a filter entry of 8 bytes is accepted with count 1.
\<close>

theorem subscribe_overrun_counterexample:
  "(\<exists>subs'. parseSubscribe (subscriptions idle_state)
             [0x82, 0x05, 0x00, 0x01, 0x00, 0x05, 0x61, 0x62, 0x63, 0x64, 0x65, 0x01] True
           = Inr (MQTTSuccess, 1, 1, subs'))
   \<and> 5 < 2 + entries_size True [([0x61, 0x62, 0x63, 0x64, 0x65], 0x01)]"
  using parseSubscribe_entries [where fs = "[([0x61, 0x62, 0x63, 0x64, 0x65], 0x01)]"
      and subs = "subscriptions idle_state" and sub = True and rl = 5 and pid = 1
      and rest = "[]"]
  by (simp add: subscribe_packet_def subscribe_entry_def u16_bytes_def entries_size_def
      idle_state_def)

theorem subscribe_count_witness:
  "parseSubscribe (subscriptions idle_state) [0x82, 0x02, 0x00, 0x01] True
     = Inr (MQTTBadParameter, 0, 1, subscriptions idle_state)
   \<and> (\<exists>subs'. parseSubscribe (subscriptions idle_state)
               [0x82, 0x06, 0x00, 0x01, 0x00, 0x01, 0x61, 0x01] True
             = Inr (MQTTSuccess, 1, 1, subs'))"
  using subscribe_count [where subs = "subscriptions idle_state"
      and buf = "[0x82, 0x02, 0x00, 0x01]" and sub = True and status = MQTTBadParameter
      and count = 0 and pid' = 1 and ?subs1.0 = "subscriptions idle_state" and pid = 1
      and rest = "[]" and fs = "[([0x61], 0x01)]" and rl = 6]
  by (simp add: subscribe_packet_def subscribe_entry_def u16_bytes_def entries_size_def
      idle_state_def)

end
